theory Spec2Isabelle
  imports Main
begin

section \<open>Data model of the intl chunk loader\<close>

text \<open>
  The browser runtime of react-intl-extract-webpack-plugin
  (\<^verbatim>\<open>browser/index.tsx\<close>) is embedded as follows.

  \<^item> A \<^verbatim>\<open>ChunkId\<close> is \<^verbatim>\<open>string | number\<close>; numeric ids are the non-negative
    integers webpack assigns. The two never compare equal inside a \<^verbatim>\<open>Set\<close>, but a
    number used as a property key of the manifest is coerced to its decimal string.
  \<^item> A plain JavaScript object with string keys is an association list in insertion
    order without repeated keys: reading a key finds its first entry, writing an
    existing key keeps its position, writing a new key appends it. Reads of the
    manifest follow the prototype chain of the standard built-in objects (see
    \<open>manifest_src\<close>). Writes into the cache under a locale that names a property
    inherited from \<^verbatim>\<open>Object.prototype\<close> would change those built-in objects
    themselves and are outside the model.
  \<^item> A \<^verbatim>\<open>Set\<close> is a list in insertion order; a \<^verbatim>\<open>Map\<close> with string keys is an
    association list like an object.
\<close>

datatype chunk_id = CStr string | CNum nat

type_synonym 'v obj = "(string \<times> 'v) list"

type_synonym manifest = "(string obj) obj"
type_synonym locale_messages = "string obj"
type_synonym messages = "locale_messages obj"
type_synonym cached = "messages obj"

fun obj_get :: "'v obj \<Rightarrow> string \<Rightarrow> 'v option" where
  "obj_get [] k = None"
| "obj_get ((k', v') # ps) k = (if k' = k then Some v' else obj_get ps k)"

fun obj_set :: "'v obj \<Rightarrow> string \<Rightarrow> 'v \<Rightarrow> 'v obj" where
  "obj_set [] k v = [(k, v)]"
| "obj_set ((k', v') # ps) k v =
     (if k' = k then (k', v) # ps else (k', v') # obj_set ps k v)"

definition obj_keys :: "'v obj \<Rightarrow> string list" where
  "obj_keys ps = map fst ps"

text \<open>\<^verbatim>\<open>Object.assign(target, source)\<close>: every own property of the source is
  written to the target, in the source's order.\<close>

definition obj_assign :: "'v obj \<Rightarrow> 'v obj \<Rightarrow> 'v obj" where
  "obj_assign target source = foldl (\<lambda>t (k, v). obj_set t k v) target source"

text \<open>\<^verbatim>\<open>Set.prototype.add\<close>, \<^verbatim>\<open>Set.prototype.has\<close> and \<^verbatim>\<open>new Set(iterable)\<close>.\<close>

definition set_add :: "'a list \<Rightarrow> 'a \<Rightarrow> 'a list" where
  "set_add xs x = (if x \<in> set xs then xs else xs @ [x])"

definition set_has :: "'a list \<Rightarrow> 'a \<Rightarrow> bool" where
  "set_has xs x = (x \<in> set xs)"

definition new_Set :: "'a list \<Rightarrow> 'a list" where
  "new_Set xs = foldl set_add [] xs"

text \<open>The decimal rendering of a numeric chunk id used as a property key.\<close>

definition digit_char :: "nat \<Rightarrow> char" where
  "digit_char d = ''0123456789'' ! d"

fun string_of_nat :: "nat \<Rightarrow> string" where
  "string_of_nat n =
     (if n < 10 then [digit_char n]
      else string_of_nat (n div 10) @ [digit_char (n mod 10)])"

fun property_key :: "chunk_id \<Rightarrow> string" where
  "property_key (CStr s) = s"
| "property_key (CNum n) = string_of_nat n"

text \<open>The fields of class \<^verbatim>\<open>IntlChunkLoader\<close>. The optional field \<^verbatim>\<open>locale\<close> is
  \<open>None\<close> while it is \<^verbatim>\<open>undefined\<close>.\<close>

record loader =
  chunkIdsToLoad :: "chunk_id list"
  manifest :: manifest
  cache :: messages
  "locale" :: "string option"
  loadedChunksPerLocale :: "(chunk_id list) obj"

section \<open>Synchronous methods\<close>

text \<open>\<^verbatim>\<open>updateCache(messages)\<close>: for every locale key of the argument the bucket
  \<^verbatim>\<open>this.cache[locale]\<close> is created when it is missing and then receives the
  argument's entries for that locale through \<^verbatim>\<open>Object.assign\<close>. A bucket is an
  object and so always truthy; \<^verbatim>\<open>Object.assign\<close> ignores an undefined source.\<close>

definition updateCache_locale :: "messages \<Rightarrow> loader \<Rightarrow> string \<Rightarrow> loader" where
  "updateCache_locale msgs s l =
     (let s1 = (if obj_get (cache s) l = None
                then s\<lparr>cache := obj_set (cache s) l []\<rparr> else s)
      in case obj_get (cache s1) l of
           None \<Rightarrow> s1
         | Some bucket \<Rightarrow>
             s1\<lparr>cache := obj_set (cache s1) l
                   (obj_assign bucket (case obj_get msgs l of None \<Rightarrow> [] | Some m \<Rightarrow> m))\<rparr>)"

definition updateCache :: "messages \<Rightarrow> loader \<Rightarrow> loader" where
  "updateCache msgs s = foldl (updateCache_locale msgs) s (obj_keys msgs)"

text \<open>\<^verbatim>\<open>setChunkIdAsLoaded(chunkId, locale)\<close>.\<close>

definition setChunkIdAsLoaded :: "chunk_id \<Rightarrow> string \<Rightarrow> loader \<Rightarrow> loader" where
  "setChunkIdAsLoaded chunkId l s =
     (case obj_get (loadedChunksPerLocale s) l of
        Some cs \<Rightarrow>
          s\<lparr>loadedChunksPerLocale := obj_set (loadedChunksPerLocale s) l (set_add cs chunkId)\<rparr>
      | None \<Rightarrow>
          s\<lparr>loadedChunksPerLocale := obj_set (loadedChunksPerLocale s) l (new_Set [chunkId])\<rparr>)"

text \<open>The constructor. Absent arguments (\<open>None\<close>) take their defaults \<^verbatim>\<open>[]\<close> and
  \<^verbatim>\<open>{}\<close>; the keys of \<^verbatim>\<open>cached\<close> are strings, so the ids it records are strings.\<close>

definition hydrate_chunk :: "cached \<Rightarrow> loader \<Rightarrow> string \<Rightarrow> loader" where
  "hydrate_chunk cached s chunkId =
     (let cachedMessages = (case obj_get cached chunkId of None \<Rightarrow> [] | Some m \<Rightarrow> m)
      in foldl (\<lambda>s' l. setChunkIdAsLoaded (CStr chunkId) l s')
           (updateCache cachedMessages s) (obj_keys cachedMessages))"

definition IntlChunkLoader :: "manifest \<Rightarrow> chunk_id list option \<Rightarrow> cached option \<Rightarrow> loader" where
  "IntlChunkLoader m chunkIds cached =
     (let ids = (case chunkIds of None \<Rightarrow> [] | Some xs \<Rightarrow> xs);
          cached' = (case cached of None \<Rightarrow> [] | Some c \<Rightarrow> c);
          s0 = \<lparr>chunkIdsToLoad = new_Set ids, manifest = m, cache = [],
                locale = None, loadedChunksPerLocale = []\<rparr>
      in foldl (hydrate_chunk cached') s0 (obj_keys cached'))"

text \<open>\<^verbatim>\<open>hot(manifest, messages)\<close>: a one-level \<^verbatim>\<open>Object.assign\<close> on the manifest,
  then \<^verbatim>\<open>updateCache\<close>.\<close>

definition hot :: "manifest \<Rightarrow> messages \<Rightarrow> loader \<Rightarrow> loader" where
  "hot m msgs s = updateCache msgs (s\<lparr>manifest := obj_assign (manifest s) m\<rparr>)"

text \<open>The getter \<^verbatim>\<open>messages\<close>. The guard \<^verbatim>\<open>if (this.locale)\<close> tests truthiness:
  \<^verbatim>\<open>undefined\<close> and the empty string both fail it.\<close>

definition truthy :: "string option \<Rightarrow> bool" where
  "truthy v = (case v of None \<Rightarrow> False | Some s \<Rightarrow> s \<noteq> [])"

definition messages :: "loader \<Rightarrow> locale_messages option" where
  "messages s =
     (if truthy (locale s) then (case locale s of None \<Rightarrow> None | Some l \<Rightarrow> obj_get (cache s) l)
      else None)"

section \<open>Asynchronous methods\<close>

text \<open>
  The asynchronous part runs on one event loop. A \<open>world\<close> holds the loader instance,
  every \<^verbatim>\<open>XMLHttpRequest\<close> that \<^verbatim>\<open>load\<close> has sent together with the state of the
  promise \<^verbatim>\<open>load\<close> returned for it, and every invocation of \<^verbatim>\<open>loadPending\<close>
  together with the state of the promise it returned. Each turn of the event loop is
  one \<open>event\<close>: a method call, the \<^verbatim>\<open>load\<close> or \<^verbatim>\<open>error\<close> event of a request, or a
  \<^verbatim>\<open>then\<close> callback. Events may interleave in any order; an event that cannot happen
  in the current world (a response for a request that is not in flight, a callback
  whose promise is not fulfilled) leaves the world as it is.

  The response text of a request is abstracted to what \<^verbatim>\<open>JSON.parse\<close> makes of it:
  a syntax error, or the own enumerable properties of the parsed value.
\<close>

datatype error = ParsePayload | NetworkError | InitializationError string

datatype promise_state = Pending | Fulfilled | Rejected error

datatype responseText = NotJson | Json locale_messages

record xhr =
  x_src :: string
  x_chunkId :: chunk_id
  x_locale :: string
  x_promise :: promise_state

text \<open>What \<^verbatim>\<open>load\<close> returns: \<^verbatim>\<open>Promise.resolve()\<close>, or the promise of the request
  with the given number.\<close>

datatype promise = Resolved | Xhr nat

text \<open>One invocation of \<^verbatim>\<open>loadPending\<close> (directly or through \<^verbatim>\<open>setLocale\<close>): the
  locale, the size snapshot, the array \<^verbatim>\<open>Array.from(this.chunkIdsToLoad)\<close> of the
  current pass, the promises handed to \<^verbatim>\<open>Promise.all\<close>, the promise
  \<^verbatim>\<open>loadPending\<close> returned and, for \<^verbatim>\<open>setLocale\<close>, the promise chained on it.\<close>

record call =
  c_locale :: string
  c_size :: nat
  c_chunkIds :: "chunk_id list"
  c_loads :: "promise list"
  c_result :: promise_state
  c_setLocale :: "promise_state option"

record world =
  inst :: loader
  xhrs :: "xhr list"
  calls :: "call list"

definition boot :: "loader \<Rightarrow> world" where
  "boot s = \<lparr>inst = s, xhrs = [], calls = []\<rparr>"

text \<open>
  The manifest and its entries are plain objects, so a property read that finds no own
  property continues in \<^verbatim>\<open>Object.prototype\<close>, and a read on a function found there
  continues in \<^verbatim>\<open>Function.prototype\<close>. The built-in objects are those of ECMAScript
  2018 with its Annex B: \<open>Method name\<close> is the built-in function of that name.
  Reading \<^verbatim>\<open>caller\<close> or \<^verbatim>\<open>arguments\<close> of a built-in function throws a
  \<^verbatim>\<open>TypeError\<close>; that exception is not represented, the read gives undefined here.
\<close>

datatype native =
  ObjectPrototype | FunctionPrototype | ObjectFunction | FunctionFunction | Method string

datatype js_value =
  JUndefined | JNull | JNumber nat | JString string | JEntry "string obj" | JNative native

definition object_prototype_methods :: "string list" where
  "object_prototype_methods =
     [''hasOwnProperty'', ''isPrototypeOf'', ''propertyIsEnumerable'', ''toLocaleString'',
      ''toString'', ''valueOf'', ''__defineGetter__'', ''__defineSetter__'',
      ''__lookupGetter__'', ''__lookupSetter__'']"


definition function_prototype_methods :: "string list" where
  "function_prototype_methods = [''apply'', ''bind'', ''call'', ''toString'']"

definition object_function_methods :: "string list" where
  "object_function_methods =
     [''assign'', ''create'', ''defineProperties'', ''defineProperty'', ''entries'', ''freeze'',
      ''getOwnPropertyDescriptor'', ''getOwnPropertyDescriptors'', ''getOwnPropertyNames'',
      ''getOwnPropertySymbols'', ''getPrototypeOf'', ''is'', ''isExtensible'', ''isFrozen'',
      ''isSealed'', ''keys'', ''preventExtensions'', ''seal'', ''setPrototypeOf'', ''values'']"

text \<open>The \<^verbatim>\<open>length\<close> of the functions of \<^verbatim>\<open>Object.prototype\<close>.\<close>

definition method_length :: "string \<Rightarrow> nat" where
  "method_length name =
     (if name \<in> set [''__defineGetter__'', ''__defineSetter__''] then 2
      else if name \<in> set [''toLocaleString'', ''toString'', ''valueOf''] then 0
      else 1)"

text \<open>A read that has reached \<^verbatim>\<open>Object.prototype\<close>; the accessor \<^verbatim>\<open>__proto__\<close>
  returns the prototype of the object the read started from.\<close>

definition object_prototype_get :: "js_value \<Rightarrow> string \<Rightarrow> js_value" where
  "object_prototype_get proto k =
     (if k = ''constructor'' then JNative ObjectFunction
      else if k \<in> set object_prototype_methods then JNative (Method k)
      else if k = ''__proto__'' then proto
      else JUndefined)"

text \<open>A read on a function that has found no own property and has reached
  \<^verbatim>\<open>Function.prototype\<close>.\<close>

definition function_prototype_get :: "string \<Rightarrow> js_value" where
  "function_prototype_get k =
     (if k \<in> set function_prototype_methods then JNative (Method k)
      else if k = ''constructor'' then JNative FunctionFunction
      else if k = ''caller'' \<or> k = ''arguments'' then JUndefined
      else object_prototype_get (JNative FunctionPrototype) k)"

text \<open>\<^verbatim>\<open>this.manifest[chunkId]\<close>.\<close>

definition manifest_get :: "manifest \<Rightarrow> string \<Rightarrow> js_value" where
  "manifest_get m k =
     (case obj_get m k of
        Some entry \<Rightarrow> JEntry entry
      | None \<Rightarrow> object_prototype_get (JNative ObjectPrototype) k)"

text \<open>\<^verbatim>\<open>value[locale]\<close> for a value that \<^verbatim>\<open>this.manifest[chunkId]\<close> can be: an entry
  of the manifest, a function of \<^verbatim>\<open>Object.prototype\<close>, the function \<^verbatim>\<open>Object\<close>, or
  \<^verbatim>\<open>Object.prototype\<close> itself.\<close>

fun js_get :: "js_value \<Rightarrow> string \<Rightarrow> js_value" where
  "js_get (JEntry entry) k =
     (case obj_get entry k of
        Some url \<Rightarrow> JString url
      | None \<Rightarrow> object_prototype_get (JNative ObjectPrototype) k)"
| "js_get (JNative (Method name)) k =
     (if k = ''name'' then JString name
      else if k = ''length'' then JNumber (method_length name)
      else function_prototype_get k)"
| "js_get (JNative ObjectFunction) k =
     (if k = ''name'' then JString ''Object''
      else if k = ''length'' then JNumber 1
      else if k = ''prototype'' then JNative ObjectPrototype
      else if k \<in> set object_function_methods then JNative (Method k)
      else function_prototype_get k)"
| "js_get (JNative ObjectPrototype) k = object_prototype_get JNull k"
| "js_get v k = JUndefined"

text \<open>The text \<^verbatim>\<open>String(value)\<close> of a built-in object, as \<^verbatim>\<open>request.open\<close> takes
  it for its URL; the text of a function is the one V8 prints.\<close>

fun native_text :: "native \<Rightarrow> string" where
  "native_text ObjectPrototype = ''[object Object]''"
| "native_text FunctionPrototype = ''function () { [native code] }''"
| "native_text ObjectFunction = ''function Object() { [native code] }''"
| "native_text FunctionFunction = ''function Function() { [native code] }''"
| "native_text (Method name) = ''function '' @ name @ ''() { [native code] }''"

text \<open>The value of \<^verbatim>\<open>this.manifest[chunkId] && this.manifest[chunkId][locale]\<close>.\<close>

definition src_value :: "loader \<Rightarrow> chunk_id \<Rightarrow> string \<Rightarrow> js_value" where
  "src_value s chunkId l =
     (case manifest_get (manifest s) (property_key chunkId) of
        JUndefined \<Rightarrow> JUndefined
      | v \<Rightarrow> js_get v l)"

text \<open>\<open>manifest_src\<close> is that value as \<^verbatim>\<open>load\<close> uses it: \<open>None\<close> for a value that is
  falsy and not a string (undefined, null, zero), otherwise the string that the value
  is or is turned into as a URL; the empty string is the one falsy string.\<close>

fun as_src :: "js_value \<Rightarrow> string option" where
  "as_src JUndefined = None"
| "as_src JNull = None"
| "as_src (JNumber n) = (if n = 0 then None else Some (string_of_nat n))"
| "as_src (JString url) = Some url"
| "as_src (JEntry entry) = Some ''[object Object]''"
| "as_src (JNative x) = Some (native_text x)"

definition manifest_src :: "loader \<Rightarrow> chunk_id \<Rightarrow> string \<Rightarrow> string option" where
  "manifest_src s chunkId l = as_src (src_value s chunkId l)"

text \<open>The resource the manifest itself declares for a chunk id and a locale: own
  properties only.\<close>

definition manifest_entry :: "loader \<Rightarrow> chunk_id \<Rightarrow> string \<Rightarrow> string option" where
  "manifest_entry s chunkId l =
     (case obj_get (manifest s) (property_key chunkId) of
        None \<Rightarrow> None
      | Some entry \<Rightarrow> obj_get entry l)"

definition is_loaded :: "loader \<Rightarrow> chunk_id \<Rightarrow> string \<Rightarrow> bool" where
  "is_loaded s chunkId l =
     (case obj_get (loadedChunksPerLocale s) l of
        None \<Rightarrow> False
      | Some loadedChunks \<Rightarrow> set_has loadedChunks chunkId)"

text \<open>\<^verbatim>\<open>load(chunkId, locale)\<close>, up to the point where it returns its promise.\<close>

definition load :: "chunk_id \<Rightarrow> string \<Rightarrow> world \<Rightarrow> promise \<times> world" where
  "load chunkId l w =
     (let src = manifest_src (inst w) chunkId l
      in if \<not> truthy src \<or> is_loaded (inst w) chunkId l then (Resolved, w)
         else (case src of
                 None \<Rightarrow> (Resolved, w)
               | Some url \<Rightarrow>
                   (Xhr (length (xhrs w)),
                    w\<lparr>xhrs := xhrs w @
                       [\<lparr>x_src = url, x_chunkId = chunkId, x_locale = l, x_promise = Pending\<rparr>]\<rparr>)))"

text \<open>A request's promise settles. \<^verbatim>\<open>Promise.all\<close> fails fast: a rejection rejects
  every pending \<^verbatim>\<open>loadPending\<close> that waits for this request, and with it the promise
  \<^verbatim>\<open>setLocale\<close> chained on it.\<close>

definition reject_call :: "nat \<Rightarrow> error \<Rightarrow> call \<Rightarrow> call" where
  "reject_call n e c =
     (if c_result c = Pending \<and> Xhr n \<in> set (c_loads c)
      then c\<lparr>c_result := Rejected e,
             c_setLocale := map_option (\<lambda>_. Rejected e) (c_setLocale c)\<rparr>
      else c)"

definition settle :: "nat \<Rightarrow> promise_state \<Rightarrow> world \<Rightarrow> world" where
  "settle n st w =
     w\<lparr>xhrs := (xhrs w)[n := (xhrs w ! n)\<lparr>x_promise := st\<rparr>],
       calls := (case st of Rejected e \<Rightarrow> map (reject_call n e) (calls w) | _ \<Rightarrow> calls w)\<rparr>"

definition in_flight :: "world \<Rightarrow> nat \<Rightarrow> bool" where
  "in_flight w n = (n < length (xhrs w) \<and> x_promise (xhrs w ! n) = Pending)"

text \<open>The \<^verbatim>\<open>load\<close> listener of request \<open>n\<close>: when \<^verbatim>\<open>JSON.parse\<close> throws, the promise is
  rejected and nothing else happens (the later \<^verbatim>\<open>resolve()\<close> has no effect);
  otherwise the payload is merged under the locale and the chunk is recorded loaded.\<close>

definition xhr_onload :: "nat \<Rightarrow> responseText \<Rightarrow> world \<Rightarrow> world" where
  "xhr_onload n body w =
     (if in_flight w n then
        (case body of
           NotJson \<Rightarrow> settle n (Rejected ParsePayload) w
         | Json parsed \<Rightarrow>
             settle n Fulfilled
               (w\<lparr>inst := setChunkIdAsLoaded (x_chunkId (xhrs w ! n)) (x_locale (xhrs w ! n))
                            (updateCache [(x_locale (xhrs w ! n), parsed)] (inst w))\<rparr>))
      else w)"

text \<open>The \<^verbatim>\<open>error\<close> listener of request \<open>n\<close>.\<close>

definition xhr_onerror :: "nat \<Rightarrow> world \<Rightarrow> world" where
  "xhr_onerror n w = (if in_flight w n then settle n (Rejected NetworkError) w else w)"

text \<open>\<^verbatim>\<open>Array.from(this.chunkIdsToLoad).map(chunkId => this.load(chunkId, locale))\<close>.\<close>

fun load_all :: "chunk_id list \<Rightarrow> string \<Rightarrow> world \<Rightarrow> promise list \<times> world" where
  "load_all [] l w = ([], w)"
| "load_all (chunkId # rest) l w =
     (case load chunkId l w of
        (p, w1) \<Rightarrow> (case load_all rest l w1 of (ps, w2) \<Rightarrow> (p # ps, w2)))"

text \<open>One pass of \<^verbatim>\<open>loadPending(locale)\<close> up to \<^verbatim>\<open>Promise.all\<close>: the size snapshot and
  the fan-out over the current set.\<close>

definition fan_out :: "string \<Rightarrow> promise_state option \<Rightarrow> world \<Rightarrow> call \<times> world" where
  "fan_out l chained w =
     (let size = length (chunkIdsToLoad (inst w));
          chunkIds = chunkIdsToLoad (inst w)
      in case load_all chunkIds l w of
           (ps, w1) \<Rightarrow>
             (\<lparr>c_locale = l, c_size = size, c_chunkIds = chunkIds, c_loads = ps,
               c_result = Pending, c_setLocale = chained\<rparr>, w1))"

definition loadPending :: "string \<Rightarrow> world \<Rightarrow> world" where
  "loadPending l w = (case fan_out l None w of (c, w1) \<Rightarrow> w1\<lparr>calls := calls w1 @ [c]\<rparr>)"

definition setLocale :: "string \<Rightarrow> world \<Rightarrow> world" where
  "setLocale l w = (case fan_out l (Some Pending) w of (c, w1) \<Rightarrow> w1\<lparr>calls := calls w1 @ [c]\<rparr>)"

definition fulfilled :: "world \<Rightarrow> promise \<Rightarrow> bool" where
  "fulfilled w p =
     (case p of
        Resolved \<Rightarrow> True
      | Xhr n \<Rightarrow> n < length (xhrs w) \<and> x_promise (xhrs w ! n) = Fulfilled)"

definition all_fulfilled :: "world \<Rightarrow> promise list \<Rightarrow> bool" where
  "all_fulfilled w ps = list_all (fulfilled w) ps"

text \<open>The \<^verbatim>\<open>then\<close> callback inside \<^verbatim>\<open>loadPending\<close> for invocation \<open>i\<close>: it runs once
  \<^verbatim>\<open>Promise.all\<close> is fulfilled; when the set has grown past the snapshot it returns
  \<^verbatim>\<open>this.loadPending(locale)\<close>, whose promise the invocation adopts, and otherwise
  the invocation's promise is fulfilled.\<close>

definition loadPending_then :: "nat \<Rightarrow> world \<Rightarrow> world" where
  "loadPending_then i w =
     (if i < length (calls w) \<and> c_result (calls w ! i) = Pending
         \<and> all_fulfilled w (c_loads (calls w ! i))
      then (if length (chunkIdsToLoad (inst w)) > c_size (calls w ! i)
            then (case fan_out (c_locale (calls w ! i)) (c_setLocale (calls w ! i)) w of
                    (c, w1) \<Rightarrow> w1\<lparr>calls := (calls w1)[i := c]\<rparr>)
            else w\<lparr>calls := (calls w)[i := (calls w ! i)\<lparr>c_result := Fulfilled\<rparr>]\<rparr>)
      else w)"

text \<open>The \<^verbatim>\<open>then\<close> callback of \<^verbatim>\<open>setLocale\<close> for invocation \<open>i\<close>.\<close>

definition setLocale_then :: "nat \<Rightarrow> world \<Rightarrow> world" where
  "setLocale_then i w =
     (if i < length (calls w) \<and> c_result (calls w ! i) = Fulfilled
         \<and> c_setLocale (calls w ! i) = Some Pending
      then w\<lparr>inst := (inst w)\<lparr>locale := Some (c_locale (calls w ! i))\<rparr>,
             calls := (calls w)[i := (calls w ! i)\<lparr>c_setLocale := Some Fulfilled\<rparr>]\<rparr>
      else w)"

text \<open>\<^verbatim>\<open>push(chunkId)\<close>.\<close>

definition push :: "chunk_id \<Rightarrow> world \<Rightarrow> promise \<times> world" where
  "push chunkId w =
     (let w1 = w\<lparr>inst := (inst w)\<lparr>chunkIdsToLoad := set_add (chunkIdsToLoad (inst w)) chunkId\<rparr>\<rparr>
      in if truthy (locale (inst w1))
         then (case locale (inst w1) of
                 None \<Rightarrow> (Resolved, w1)
               | Some l \<Rightarrow> load chunkId l w1)
         else (Resolved, w1))"

datatype event =
    UpdateCache messages
  | SetChunkIdAsLoaded chunk_id string
  | Load chunk_id string
  | LoadPending string
  | SetLocale string
  | Push chunk_id
  | Hot manifest messages
  | XhrLoad nat responseText
  | XhrError nat
  | LoadPendingThen nat
  | SetLocaleThen nat

fun step :: "event \<Rightarrow> world \<Rightarrow> world" where
  "step (UpdateCache msgs) w = w\<lparr>inst := updateCache msgs (inst w)\<rparr>"
| "step (SetChunkIdAsLoaded chunkId l) w = w\<lparr>inst := setChunkIdAsLoaded chunkId l (inst w)\<rparr>"
| "step (Load chunkId l) w = snd (load chunkId l w)"
| "step (LoadPending l) w = loadPending l w"
| "step (SetLocale l) w = setLocale l w"
| "step (Push chunkId) w = snd (push chunkId w)"
| "step (Hot m msgs) w = w\<lparr>inst := hot m msgs (inst w)\<rparr>"
| "step (XhrLoad n body) w = xhr_onload n body w"
| "step (XhrError n) w = xhr_onerror n w"
| "step (LoadPendingThen i) w = loadPending_then i w"
| "step (SetLocaleThen i) w = setLocale_then i w"

definition run :: "world \<Rightarrow> event list \<Rightarrow> world" where
  "run w evs = foldl (\<lambda>w' ev. step ev w') w evs"

section \<open>Module-level initialisation\<close>

text \<open>The two properties of \<^verbatim>\<open>__webpack_require__\<close> that \<^verbatim>\<open>initialize\<close> reads and
  writes. Before initialisation \<^verbatim>\<open>intlChunkLoader\<close> is undefined or the array of
  chunk ids requested so far; afterwards it is the loader instance.\<close>

datatype slot = Undefined | ChunkIds "chunk_id list" | Instance loader

record webpack_require =
  intlManifest :: "manifest option"
  intlChunkLoader :: slot

definition manifest_not_found :: string where
  "manifest_not_found = ''Manifest generated by react-intl-extract-webpack-plugin not found. Make sure to use this plugin in your webpack config.''"

definition called_twice :: string where
  "called_twice = ''Initialize function for intl chunk loader should be called only once.''"

definition initialize :: "cached option \<Rightarrow> webpack_require \<Rightarrow> error + loader \<times> webpack_require" where
  "initialize cached rt =
     (case intlManifest rt of
        None \<Rightarrow> Inl (InitializationError manifest_not_found)
      | Some m \<Rightarrow>
          (case intlChunkLoader rt of
             Instance _ \<Rightarrow> Inl (InitializationError called_twice)
           | Undefined \<Rightarrow>
               (let ld = IntlChunkLoader m None cached
                in Inr (ld, rt\<lparr>intlChunkLoader := Instance ld\<rparr>))
           | ChunkIds ids \<Rightarrow>
               (let ld = IntlChunkLoader m (Some ids) cached
                in Inr (ld, rt\<lparr>intlChunkLoader := Instance ld\<rparr>))))"

section \<open>Auxiliary definitions\<close>

text \<open>The net effect of one iteration of \<^verbatim>\<open>updateCache\<close> on the cache object.\<close>

definition merged :: "messages \<Rightarrow> messages \<Rightarrow> string \<Rightarrow> messages" where
  "merged msgs c l =
     obj_set c l (obj_assign (case obj_get c l of None \<Rightarrow> [] | Some b \<Rightarrow> b)
                             (case obj_get msgs l of None \<Rightarrow> [] | Some m \<Rightarrow> m))"


text \<open>Invariants of the world: the promise of \<^verbatim>\<open>setLocale\<close> follows the promise of
  \<^verbatim>\<open>loadPending\<close>, and the ids of a pass are the first ids of the registered set, as
  many as the snapshot says.\<close>

definition call_ok :: "call \<Rightarrow> bool" where
  "call_ok c =
     (case c_setLocale c of
        None \<Rightarrow> True
      | Some Pending \<Rightarrow> c_result c = Pending \<or> c_result c = Fulfilled
      | Some Fulfilled \<Rightarrow> c_result c = Fulfilled
      | Some (Rejected e) \<Rightarrow> c_result c = Rejected e)"

definition covers :: "chunk_id list \<Rightarrow> call \<Rightarrow> bool" where
  "covers ids c = (c_size c = length (c_chunkIds c) \<and> take (length (c_chunkIds c)) ids = c_chunkIds c)"



text \<open>\<^verbatim>\<open>load\<close> was issued for a chunk id between two worlds and returned the given
  promise: \<^verbatim>\<open>Promise.resolve()\<close> where it short-circuits, otherwise the promise of a
  new pending request for the chunk's resource.\<close>

definition issued :: "world \<Rightarrow> world \<Rightarrow> string \<Rightarrow> chunk_id \<Rightarrow> promise \<Rightarrow> bool" where
  "issued w w' l chunkId p =
     (if \<not> truthy (manifest_src (inst w) chunkId l) \<or> is_loaded (inst w) chunkId l
      then p = Resolved
      else (case p of
              Resolved \<Rightarrow> False
            | Xhr n \<Rightarrow> length (xhrs w) \<le> n \<and> n < length (xhrs w')
                \<and> x_chunkId (xhrs w' ! n) = chunkId \<and> x_locale (xhrs w' ! n) = l
                \<and> Some (x_src (xhrs w' ! n)) = manifest_src (inst w) chunkId l
                \<and> x_promise (xhrs w' ! n) = Pending))"

text \<open>A request added by a fan-out belongs to a chunk id of the fan-out that had a
  resource and was not recorded loaded.\<close>

definition sent_for :: "world \<Rightarrow> string \<Rightarrow> chunk_id list \<Rightarrow> promise list \<Rightarrow> xhr \<Rightarrow> nat \<Rightarrow> bool" where
  "sent_for w l cs ps x k =
     (x_chunkId x \<in> set cs \<and> x_locale x = l \<and> x_promise x = Pending
      \<and> manifest_src (inst w) (x_chunkId x) l = Some (x_src x)
      \<and> truthy (manifest_src (inst w) (x_chunkId x) l)
      \<and> \<not> is_loaded (inst w) (x_chunkId x) l
      \<and> Xhr k \<in> set ps)"

text \<open>The keys of a payload are present in the cache bucket of a locale; the payload of
  a pair, if it has one, is merged; every pair recorded loaded has its payload merged;
  an event supplies the payloads the invariant needs; the cached messages of the
  constructor are the payloads of their pairs; and one cache has every bucket and key
  of another.\<close>

definition covered :: "locale_messages \<Rightarrow> messages \<Rightarrow> string \<Rightarrow> bool" where
  "covered payload c l =
     (case obj_get c l of
        None \<Rightarrow> False
      | Some bucket \<Rightarrow> list_all (\<lambda>k. obj_get bucket k \<noteq> None) (obj_keys payload))"

definition payload_merged ::
  "(chunk_id \<Rightarrow> string \<Rightarrow> locale_messages option) \<Rightarrow> loader \<Rightarrow> chunk_id \<Rightarrow> string \<Rightarrow> bool" where
  "payload_merged payload_of s chunkId l =
     (case payload_of chunkId l of None \<Rightarrow> True | Some p \<Rightarrow> covered p (cache s) l)"

definition merged_before_loaded ::
  "(chunk_id \<Rightarrow> string \<Rightarrow> locale_messages option) \<Rightarrow> loader \<Rightarrow> bool" where
  "merged_before_loaded payload_of s =
     list_all (\<lambda>(l, cs). list_all (\<lambda>chunkId. payload_merged payload_of s chunkId l) cs)
       (loadedChunksPerLocale s)"



definition cache_le :: "messages \<Rightarrow> messages \<Rightarrow> bool" where
  "cache_le c c' =
     (\<forall>l b. obj_get c l = Some b \<longrightarrow>
        (\<exists>b'. obj_get c' l = Some b' \<and> set (obj_keys b) \<subseteq> set (obj_keys b')))"


section \<open>Objects and \<^verbatim>\<open>Object.assign\<close>\<close>

lemma obj_get_set: "obj_get (obj_set t k v) k' = (if k' = k then Some v else obj_get t k')"
  by (induction t) auto

lemma obj_set_same: "obj_get t k = Some v \<Longrightarrow> obj_set t k v = t"
  by (induction t) auto

lemma obj_set_twice: "obj_set (obj_set t k v) k v' = obj_set t k v'"
  by (induction t) auto

lemma obj_keys_Nil [simp]: "obj_keys [] = []"
  by (simp add: obj_keys_def)

lemma obj_keys_Cons [simp]: "obj_keys ((k, v) # t) = k # obj_keys t"
  by (simp add: obj_keys_def)

lemma obj_keys_set:
  "obj_keys (obj_set t k v) = (if k \<in> set (obj_keys t) then obj_keys t else obj_keys t @ [k])"
proof (induction t)
  case Nil
  then show ?case by simp
next
  case (Cons a t)
  obtain k' v' where "a = (k', v')" by (cases a)
  with Cons show ?case by simp
qed

lemma obj_get_None_iff: "obj_get t k = None \<longleftrightarrow> k \<notin> set (obj_keys t)"
proof (induction t)
  case Nil
  then show ?case by simp
next
  case (Cons a t)
  obtain k' v' where "a = (k', v')" by (cases a)
  with Cons show ?case by auto
qed

lemma obj_set_commute:
  "k \<noteq> k' \<Longrightarrow> k' \<in> set (obj_keys t) \<Longrightarrow>
   obj_set (obj_set t k v) k' v' = obj_set (obj_set t k' v') k v"
proof (induction t)
  case Nil
  then show ?case by simp
next
  case (Cons a t)
  obtain k1 v1 where "a = (k1, v1)" by (cases a)
  with Cons show ?case by auto
qed

lemma obj_assign_Nil [simp]: "obj_assign t [] = t"
  by (simp add: obj_assign_def)

lemma obj_assign_Cons [simp]: "obj_assign t ((k, v) # src) = obj_assign (obj_set t k v) src"
  by (simp add: obj_assign_def)

lemma obj_assign_snoc: "obj_assign t (src @ [(k, v)]) = obj_set (obj_assign t src) k v"
  by (simp add: obj_assign_def)

lemma obj_keys_assign_mono: "set (obj_keys t) \<subseteq> set (obj_keys (obj_assign t src))"
proof (induction src arbitrary: t)
  case Nil
  then show ?case by simp
next
  case (Cons a src)
  obtain k v where a: "a = (k, v)" by (cases a)
  have "set (obj_keys t) \<subseteq> set (obj_keys (obj_set t k v))"
    by (auto simp: obj_keys_set)
  also have "\<dots> \<subseteq> set (obj_keys (obj_assign (obj_set t k v) src))"
    by (rule Cons.IH)
  finally show ?case using a by simp
qed

lemma obj_keys_assign_src: "set (obj_keys src) \<subseteq> set (obj_keys (obj_assign t src))"
proof (induction src arbitrary: t)
  case Nil
  then show ?case by simp
next
  case (Cons a src)
  obtain k v where a: "a = (k, v)" by (cases a)
  have "k \<in> set (obj_keys (obj_set t k v))" by (simp add: obj_keys_set)
  then have "k \<in> set (obj_keys (obj_assign (obj_set t k v) src))"
    using obj_keys_assign_mono by blast
  moreover have "set (obj_keys src) \<subseteq> set (obj_keys (obj_assign (obj_set t k v) src))"
    by (rule Cons.IH)
  ultimately show ?case using a by simp
qed

lemma obj_assign_set_absorb:
  "set (obj_keys src) \<subseteq> set (obj_keys t) \<Longrightarrow>
   obj_set (obj_assign (obj_set t k v) src) k v = obj_set (obj_assign t src) k v"
proof (induction src arbitrary: t)
  case Nil
  then show ?case by (simp add: obj_set_twice)
next
  case (Cons a src)
  obtain k1 v1 where a: "a = (k1, v1)" by (cases a)
  show ?case
  proof (cases "k1 = k")
    case True
    then show ?thesis using a by (simp add: obj_set_twice)
  next
    case False
    from Cons.prems a have k1: "k1 \<in> set (obj_keys t)" by simp
    have sub: "set (obj_keys src) \<subseteq> set (obj_keys (obj_set t k1 v1))"
      using Cons.prems a by (auto simp: obj_keys_set)
    have "obj_set (obj_set t k v) k1 v1 = obj_set (obj_set t k1 v1) k v"
      using obj_set_commute [of k k1 t v v1] False k1 by auto
    then show ?thesis using a Cons.IH [OF sub] by simp
  qed
qed

lemma obj_assign_idem: "obj_assign (obj_assign t src) src = obj_assign t src"
proof (induction src arbitrary: t rule: rev_induct)
  case Nil
  then show ?case by simp
next
  case (snoc a src)
  obtain k v where a: "a = (k, v)" by (cases a)
  let ?B = "obj_assign t src"
  have "obj_assign (obj_set ?B k v) (src @ [(k, v)]) = obj_set (obj_assign (obj_set ?B k v) src) k v"
    by (simp add: obj_assign_snoc)
  also have "\<dots> = obj_set (obj_assign ?B src) k v"
    by (rule obj_assign_set_absorb) (rule obj_keys_assign_src)
  also have "\<dots> = obj_set ?B k v" by (simp add: snoc.IH)
  finally show ?case using a by (simp add: obj_assign_snoc)
qed

section \<open>\<^verbatim>\<open>updateCache\<close>\<close>

lemma updateCache_locale_eq: "updateCache_locale msgs s l = s\<lparr>cache := merged msgs (cache s) l\<rparr>"
  by (cases "obj_get (cache s) l")
     (simp_all add: updateCache_locale_def merged_def obj_get_set obj_set_twice)

lemma updateCache_eq:
  "updateCache msgs s = s\<lparr>cache := foldl (merged msgs) (cache s) (obj_keys msgs)\<rparr>"
proof -
  have "foldl (updateCache_locale msgs) s ks = s\<lparr>cache := foldl (merged msgs) (cache s) ks\<rparr>" for ks
    by (induction ks arbitrary: s) (simp_all add: updateCache_locale_eq)
  then show ?thesis by (simp add: updateCache_def)
qed

lemma merged_twice: "merged msgs (merged msgs c l) l = merged msgs c l"
  by (simp add: merged_def obj_get_set obj_assign_idem obj_set_twice)

lemma merged_key: "l \<in> set (obj_keys (merged msgs c l))"
  by (simp add: merged_def obj_keys_set)

lemma merged_commute:
  assumes "l \<noteq> l'" and "l' \<in> set (obj_keys c)"
  shows "merged msgs (merged msgs c l) l' = merged msgs (merged msgs c l') l"
  using assms obj_set_commute [of l l' c]
  by (simp add: merged_def obj_get_set)

lemma merged_fold_stable:
  "l \<in> set ks \<Longrightarrow> merged msgs (foldl (merged msgs) c ks) l = foldl (merged msgs) c ks"
proof (induction ks arbitrary: l rule: rev_induct)
  case Nil
  then show ?case by simp
next
  case (snoc k ks)
  let ?G = "foldl (merged msgs) c ks"
  show ?case
  proof (cases "l = k")
    case True
    then show ?thesis by (simp add: merged_twice)
  next
    case False
    with snoc.prems have mem: "l \<in> set ks" by simp
    then have st: "merged msgs ?G l = ?G" by (rule snoc.IH)
    have "l \<in> set (obj_keys (merged msgs ?G l))" by (rule merged_key)
    with st have key: "l \<in> set (obj_keys ?G)" by simp
    have "merged msgs (merged msgs ?G k) l = merged msgs (merged msgs ?G l) k"
      using False key by (intro merged_commute) auto
    then show ?thesis using st by simp
  qed
qed

lemma foldl_fixed: "(\<And>x. x \<in> set xs \<Longrightarrow> f a x = a) \<Longrightarrow> foldl f a xs = a"
  by (induction xs) simp_all

lemma updateCache_cache_idem:
  "foldl (merged msgs) (foldl (merged msgs) c ks) ks = foldl (merged msgs) c ks"
  by (rule foldl_fixed) (rule merged_fold_stable)

text \<open>
  Claim C6. \<^verbatim>\<open>updateCache\<close> (the spec's mergeIntoCache) is idempotent: for every
  loader state and every payload, merging the payload a second time returns exactly
  the state reached after merging it once; in particular no locale key and no
  message-id key is added by the second merge.
\<close>

theorem updateCache_idempotent:
  "updateCache msgs (updateCache msgs s) = updateCache msgs s"
  by (simp add: updateCache_eq updateCache_cache_idem)

theorem updateCache_idempotent_witness:
  "updateCache [(''en'', [(''hello'', ''Hi''), (''bye'', ''Bye'')]), (''fr'', [(''hello'', ''Salut'')])]
     (updateCache [(''en'', [(''hello'', ''Hi''), (''bye'', ''Bye'')]), (''fr'', [(''hello'', ''Salut'')])]
        \<lparr>chunkIdsToLoad = [], manifest = [], cache = [(''en'', [(''hello'', ''Hello''), (''old'', ''x'')])],
         locale = None, loadedChunksPerLocale = []\<rparr>)
   = updateCache [(''en'', [(''hello'', ''Hi''), (''bye'', ''Bye'')]), (''fr'', [(''hello'', ''Salut'')])]
        \<lparr>chunkIdsToLoad = [], manifest = [], cache = [(''en'', [(''hello'', ''Hello''), (''old'', ''x'')])],
         locale = None, loadedChunksPerLocale = []\<rparr>
   \<and> cache (updateCache [(''en'', [(''hello'', ''Hi''), (''bye'', ''Bye'')]), (''fr'', [(''hello'', ''Salut'')])]
        \<lparr>chunkIdsToLoad = [], manifest = [], cache = [(''en'', [(''hello'', ''Hello''), (''old'', ''x'')])],
         locale = None, loadedChunksPerLocale = []\<rparr>)
     = [(''en'', [(''hello'', ''Hi''), (''old'', ''x''), (''bye'', ''Bye'')]), (''fr'', [(''hello'', ''Salut'')])]"
  (is "?C \<and> ?E")
proof -
  have c: ?C by (rule updateCache_idempotent)
  have e: ?E by code_simp
  from c e show ?thesis by (rule conjI)
qed

subsection \<open>Frame properties of the synchronous methods\<close>

lemma updateCache_fields [simp]:
  "chunkIdsToLoad (updateCache msgs s) = chunkIdsToLoad s"
  "manifest (updateCache msgs s) = manifest s"
  "locale (updateCache msgs s) = locale s"
  "loadedChunksPerLocale (updateCache msgs s) = loadedChunksPerLocale s"
  by (simp_all add: updateCache_eq)

lemma setChunkIdAsLoaded_fields [simp]:
  "chunkIdsToLoad (setChunkIdAsLoaded c l s) = chunkIdsToLoad s"
  "manifest (setChunkIdAsLoaded c l s) = manifest s"
  "locale (setChunkIdAsLoaded c l s) = locale s"
  "cache (setChunkIdAsLoaded c l s) = cache s"
  by (simp_all add: setChunkIdAsLoaded_def split: option.splits)

lemma hot_fields [simp]:
  "chunkIdsToLoad (hot m msgs s) = chunkIdsToLoad s"
  "locale (hot m msgs s) = locale s"
  "loadedChunksPerLocale (hot m msgs s) = loadedChunksPerLocale s"
  "manifest (hot m msgs s) = obj_assign (manifest s) m"
  by (simp_all add: hot_def)

lemma hot_cache: "cache (hot m msgs s) = cache (updateCache msgs s)"
  by (simp add: hot_def updateCache_eq)

lemma is_loaded_setChunkIdAsLoaded:
  "is_loaded (setChunkIdAsLoaded c l s) c' l' \<longleftrightarrow> (c' = c \<and> l' = l) \<or> is_loaded s c' l'"
  by (auto simp: is_loaded_def setChunkIdAsLoaded_def obj_get_set set_has_def set_add_def new_Set_def
           split: option.splits)

lemma is_loaded_updateCache [simp]: "is_loaded (updateCache msgs s) c l = is_loaded s c l"
  by (simp add: is_loaded_def)

lemma is_loaded_hot [simp]: "is_loaded (hot m msgs s) c l = is_loaded s c l"
  by (simp add: is_loaded_def)

subsection \<open>Frame properties of the asynchronous methods\<close>

lemma load_inst [simp]: "inst (snd (load c l w)) = inst w"
  by (simp add: load_def Let_def split: option.splits)

lemma load_calls [simp]: "calls (snd (load c l w)) = calls w"
  by (simp add: load_def Let_def split: option.splits)

lemma load_all_inst [simp]: "inst (snd (load_all cs l w)) = inst w"
proof (induction cs arbitrary: w)
  case Nil
  then show ?case by simp
next
  case (Cons c cs)
  have "inst (snd (load_all cs l (snd (load c l w)))) = inst (snd (load c l w))"
    by (rule Cons.IH)
  then show ?case by (simp add: split_beta)
qed

lemma load_all_calls [simp]: "calls (snd (load_all cs l w)) = calls w"
proof (induction cs arbitrary: w)
  case Nil
  then show ?case by simp
next
  case (Cons c cs)
  have "calls (snd (load_all cs l (snd (load c l w)))) = calls (snd (load c l w))"
    by (rule Cons.IH)
  then show ?case by (simp add: split_beta)
qed

lemma fan_out_inst [simp]: "inst (snd (fan_out l ch w)) = inst w"
  by (simp add: fan_out_def Let_def split_beta)

lemma fan_out_calls [simp]: "calls (snd (fan_out l ch w)) = calls w"
  by (simp add: fan_out_def Let_def split_beta)

lemma loadPending_inst [simp]: "inst (loadPending l w) = inst w"
  by (simp add: loadPending_def split_beta)

lemma setLocale_inst [simp]: "inst (setLocale l w) = inst w"
  by (simp add: setLocale_def split_beta)

lemma settle_inst [simp]: "inst (settle n st w) = inst w"
  by (simp add: settle_def)

lemma loadPending_then_inst [simp]: "inst (loadPending_then i w) = inst w"
  by (simp add: loadPending_then_def split_beta)

lemma push_inst:
  "inst (snd (push c w)) = (inst w)\<lparr>chunkIdsToLoad := set_add (chunkIdsToLoad (inst w)) c\<rparr>"
  by (simp add: push_def Let_def split: option.splits)

lemma xhr_onerror_inst [simp]: "inst (xhr_onerror n w) = inst w"
  by (simp add: xhr_onerror_def)

lemma xhr_onload_inst:
  "inst (xhr_onload n body w) =
     (if in_flight w n then
        (case body of NotJson \<Rightarrow> inst w
         | Json parsed \<Rightarrow> setChunkIdAsLoaded (x_chunkId (xhrs w ! n)) (x_locale (xhrs w ! n))
                            (updateCache [(x_locale (xhrs w ! n), parsed)] (inst w)))
      else inst w)"
  by (simp add: xhr_onload_def split: responseText.splits)

lemma setLocale_then_inst:
  "inst (setLocale_then i w) =
     (if i < length (calls w) \<and> c_result (calls w ! i) = Fulfilled
         \<and> c_setLocale (calls w ! i) = Some Pending
      then (inst w)\<lparr>locale := Some (c_locale (calls w ! i))\<rparr> else inst w)"
  by (simp add: setLocale_then_def)

lemma is_loaded_chunkIds_update [simp]:
  "is_loaded (s\<lparr>chunkIdsToLoad := x\<rparr>) c l = is_loaded s c l"
  "is_loaded (s\<lparr>locale := y\<rparr>) c l = is_loaded s c l"
  by (simp_all add: is_loaded_def)


lemma run_Nil [simp]: "run w [] = w"
  by (simp add: run_def)

lemma run_Cons [simp]: "run w (ev # evs) = run (step ev w) evs"
  by (simp add: run_def)

lemma run_snoc: "run w (evs @ [ev]) = step ev (run w evs)"
  by (simp add: run_def)


lemma load_Resolved:
  "manifest_src (inst w) c l = None \<or> is_loaded (inst w) c l \<Longrightarrow> load c l w = (Resolved, w)"
  by (auto simp: load_def truthy_def)




lemma manifest_src_entry:
  "manifest_entry s c l = Some url \<Longrightarrow> manifest_src s c l = Some url"
  by (auto simp: manifest_src_def src_value_def manifest_get_def manifest_entry_def
           split: option.splits)









subsection \<open>hot\<close>

lemma obj_get_assign:
  "obj_get (obj_assign t src) k =
     (case obj_get (rev src) k of Some v \<Rightarrow> Some v | None \<Rightarrow> obj_get t k)"
proof (induction src rule: rev_induct)
  case Nil
  then show ?case by simp
next
  case (snoc a src)
  obtain k' v' where "a = (k', v')" by (cases a)
  with snoc show ?case by (simp add: obj_assign_snoc obj_get_set)
qed

lemma obj_get_rev_None: "obj_get (rev src) k = None \<longleftrightarrow> k \<notin> set (obj_keys src)"
  by (simp add: obj_get_None_iff obj_keys_def)

text \<open>
  Claim C8, as amended. \<^verbatim>\<open>hot\<close> extends the manifest at the level of chunk ids only:
  after the call a chunk id named by the manifest patch carries exactly the patch's
  locale map (the last one, should the patch name it twice), every other chunk id
  keeps its entry, so every chunk id present before is present after and a chunk the
  patch does not name keeps each of its resource locations. The cache becomes what
  \<^verbatim>\<open>updateCache\<close> of the messages patch makes of it; the loaded-chunk bookkeeping, the
  registered chunk ids and the active locale are unchanged.
\<close>

theorem hot_extends_chunk_level:
  "obj_get (manifest (hot m msgs s)) k =
      (case obj_get (rev m) k of Some entry \<Rightarrow> Some entry | None \<Rightarrow> obj_get (manifest s) k)
   \<and> set (obj_keys (manifest s)) \<subseteq> set (obj_keys (manifest (hot m msgs s)))
   \<and> (property_key c \<notin> set (obj_keys m) \<longrightarrow> manifest_src (hot m msgs s) c l = manifest_src s c l)
   \<and> cache (hot m msgs s) = cache (updateCache msgs s)
   \<and> loadedChunksPerLocale (hot m msgs s) = loadedChunksPerLocale s
   \<and> chunkIdsToLoad (hot m msgs s) = chunkIdsToLoad s
   \<and> locale (hot m msgs s) = locale s"
proof -
  have "property_key c \<notin> set (obj_keys m) \<Longrightarrow> manifest_src (hot m msgs s) c l = manifest_src s c l"
    using obj_get_rev_None [of m "property_key c"]
    by (simp add: manifest_src_def src_value_def manifest_get_def obj_get_assign)
  then show ?thesis
    by (simp add: obj_get_assign obj_keys_assign_mono hot_cache)
qed

theorem hot_extends_chunk_level_witness:
  "property_key (CStr ''b'') \<notin> set (obj_keys [(''a'', [(''en'', ''a.en.2.json'')])])
   \<and> manifest_src (hot [(''a'', [(''en'', ''a.en.2.json'')])] [(''en'', [(''hello'', ''Hi'')])]
        (IntlChunkLoader [(''a'', [(''en'', ''a.en.json'')]), (''b'', [(''en'', ''b.en.json'')])] None None))
        (CStr ''b'') ''en'' = Some ''b.en.json''
   \<and> manifest_src (hot [(''a'', [(''en'', ''a.en.2.json'')])] [(''en'', [(''hello'', ''Hi'')])]
        (IntlChunkLoader [(''a'', [(''en'', ''a.en.json'')]), (''b'', [(''en'', ''b.en.json'')])] None None))
        (CStr ''a'') ''en'' = Some ''a.en.2.json''"
  (is "?H \<and> ?C1 \<and> ?C2")
proof -
  let ?s = "IntlChunkLoader [(''a'', [(''en'', ''a.en.json'')]), (''b'', [(''en'', ''b.en.json'')])] None None"
  let ?m = "[(''a'', [(''en'', ''a.en.2.json'')])]"
  let ?msgs = "[(''en'', [(''hello'', ''Hi'')])]"
  have h: ?H by code_simp
  have "manifest_src (hot ?m ?msgs ?s) (CStr ''b'') ''en'' = manifest_src ?s (CStr ''b'') ''en''"
    using hot_extends_chunk_level [of ?m ?msgs ?s _ "CStr ''b''" "''en''"] h by blast
  moreover have "manifest_src ?s (CStr ''b'') ''en'' = Some ''b.en.json''" by code_simp
  ultimately have c1: ?C1 by simp
  have c2: ?C2 by code_simp
  from h c1 c2 show ?thesis by blast
qed

text \<open>
  Claim C8 as stated fails: the merge of the manifest patch is one level deep, so a
  patch that names chunk \<^verbatim>\<open>a\<close> with English only removes the French resource the
  manifest held for \<^verbatim>\<open>a\<close>.
\<close>

theorem hot_shrinks_counterexample:
  "manifest_src (IntlChunkLoader [(''a'', [(''en'', ''a.en.json''), (''fr'', ''a.fr.json'')])] None None)
      (CStr ''a'') ''fr'' = Some ''a.fr.json''
   \<and> manifest_src (hot [(''a'', [(''en'', ''a.en.2.json'')])] []
        (IntlChunkLoader [(''a'', [(''en'', ''a.en.json''), (''fr'', ''a.fr.json'')])] None None))
      (CStr ''a'') ''fr'' = None"
  by code_simp

subsection \<open>initialize\<close>

text \<open>
  Claim C9. \<^verbatim>\<open>initialize\<close> throws the initialisation error when the manifest is
  missing from \<^verbatim>\<open>__webpack_require__\<close>; it throws whenever a loader instance already
  exists; and after a successful call, which stores the loader it returns, every
  further call throws the called-twice error instead of constructing a loader.
\<close>

theorem initialize_once:
  "(intlManifest rt = None \<longrightarrow> initialize cached rt = Inl (InitializationError manifest_not_found))
   \<and> (intlChunkLoader rt = Instance ld0 \<longrightarrow> (\<exists>msg. initialize cached rt = Inl (InitializationError msg)))
   \<and> (initialize cached rt = Inr (ld, rt') \<longrightarrow>
        intlChunkLoader rt' = Instance ld \<and> intlManifest rt' = intlManifest rt
        \<and> initialize cached2 rt' = Inl (InitializationError called_twice))"
  by (auto simp: initialize_def Let_def split: option.splits slot.splits)

theorem initialize_once_witness:
  "intlManifest \<lparr>intlManifest = None, intlChunkLoader = ChunkIds [CNum 0]\<rparr> = None
   \<and> initialize None \<lparr>intlManifest = None, intlChunkLoader = ChunkIds [CNum 0]\<rparr>
       = Inl (InitializationError manifest_not_found)
   \<and> initialize None \<lparr>intlManifest = Some [(''0'', [(''en'', ''0.en.json'')])], intlChunkLoader = ChunkIds [CNum 0]\<rparr>
       = Inr (IntlChunkLoader [(''0'', [(''en'', ''0.en.json'')])] (Some [CNum 0]) None,
              \<lparr>intlManifest = Some [(''0'', [(''en'', ''0.en.json'')])],
               intlChunkLoader = Instance (IntlChunkLoader [(''0'', [(''en'', ''0.en.json'')])] (Some [CNum 0]) None)\<rparr>)
   \<and> initialize (Some []) \<lparr>intlManifest = Some [(''0'', [(''en'', ''0.en.json'')])],
               intlChunkLoader = Instance (IntlChunkLoader [(''0'', [(''en'', ''0.en.json'')])] (Some [CNum 0]) None)\<rparr>
       = Inl (InitializationError called_twice)"
  (is "?H1 \<and> ?C1 \<and> ?H2 \<and> ?C2")
proof -
  have h1: ?H1 by simp
  have c1: ?C1 using initialize_once [of "\<lparr>intlManifest = None, intlChunkLoader = ChunkIds [CNum 0]\<rparr>" None] h1
    by blast
  have h2: ?H2 by (simp add: initialize_def Let_def)
  have c2: ?C2
    using initialize_once [of _ None _
      "IntlChunkLoader [(''0'', [(''en'', ''0.en.json'')])] (Some [CNum 0]) None"
      "\<lparr>intlManifest = Some [(''0'', [(''en'', ''0.en.json'')])],
               intlChunkLoader = Instance (IntlChunkLoader [(''0'', [(''en'', ''0.en.json'')])] (Some [CNum 0]) None)\<rparr>"
      "Some []"] h2
    by blast
  from h1 c1 h2 c2 show ?thesis by blast
qed

text \<open>
  Claim C10. When the \<^verbatim>\<open>then\<close> callback of a fulfilled \<^verbatim>\<open>setLocale('')\<close> runs, the
  field \<^verbatim>\<open>locale\<close> becomes the empty string; and in every world whose \<^verbatim>\<open>locale\<close> is
  the empty string the getter \<^verbatim>\<open>messages\<close> returns \<^verbatim>\<open>undefined\<close> and \<^verbatim>\<open>push\<close> only
  registers the chunk id and returns \<^verbatim>\<open>Promise.resolve()\<close>, sending no request.
\<close>

theorem empty_locale_inactive:
  "(i < length (calls w) \<and> c_result (calls w ! i) = Fulfilled
      \<and> c_setLocale (calls w ! i) = Some Pending \<and> c_locale (calls w ! i) = []
     \<longrightarrow> locale (inst (step (SetLocaleThen i) w)) = Some [])
   \<and> (locale (inst w) = Some [] \<longrightarrow>
        messages (inst w) = None
        \<and> push c w = (Resolved, w\<lparr>inst := (inst w)\<lparr>chunkIdsToLoad := set_add (chunkIdsToLoad (inst w)) c\<rparr>\<rparr>))"
  by (simp add: setLocale_then_inst messages_def truthy_def push_def)

lemma xhrs_inst_update: "xhrs (w\<lparr>inst := x\<rparr>) = xhrs w"
  by simp

theorem empty_locale_inactive_witness:
  "0 < length (calls (run (boot (IntlChunkLoader [(''a'', [('''', ''a.json'')]), (''b'', [('''', ''b.json'')])]
                                  (Some [CStr ''a'']) None))
                      [SetLocale '''', XhrLoad 0 (Json [(''hello'', ''Hi'')]), LoadPendingThen 0]))
   \<and> c_result (calls (run (boot (IntlChunkLoader [(''a'', [('''', ''a.json'')]), (''b'', [('''', ''b.json'')])]
                                  (Some [CStr ''a'']) None))
                      [SetLocale '''', XhrLoad 0 (Json [(''hello'', ''Hi'')]), LoadPendingThen 0]) ! 0) = Fulfilled
   \<and> locale (inst (run (boot (IntlChunkLoader [(''a'', [('''', ''a.json'')]), (''b'', [('''', ''b.json'')])]
                                  (Some [CStr ''a'']) None))
                      [SetLocale '''', XhrLoad 0 (Json [(''hello'', ''Hi'')]), LoadPendingThen 0,
                       SetLocaleThen 0])) = Some []
   \<and> obj_get (cache (inst (run (boot (IntlChunkLoader [(''a'', [('''', ''a.json'')]), (''b'', [('''', ''b.json'')])]
                                  (Some [CStr ''a'']) None))
                      [SetLocale '''', XhrLoad 0 (Json [(''hello'', ''Hi'')]), LoadPendingThen 0,
                       SetLocaleThen 0]))) [] = Some [(''hello'', ''Hi'')]
   \<and> messages (inst (run (boot (IntlChunkLoader [(''a'', [('''', ''a.json'')]), (''b'', [('''', ''b.json'')])]
                                  (Some [CStr ''a'']) None))
                      [SetLocale '''', XhrLoad 0 (Json [(''hello'', ''Hi'')]), LoadPendingThen 0,
                       SetLocaleThen 0])) = None
   \<and> fst (push (CStr ''b'') (run (boot (IntlChunkLoader [(''a'', [('''', ''a.json'')]), (''b'', [('''', ''b.json'')])]
                                  (Some [CStr ''a'']) None))
                      [SetLocale '''', XhrLoad 0 (Json [(''hello'', ''Hi'')]), LoadPendingThen 0,
                       SetLocaleThen 0])) = Resolved
   \<and> length (xhrs (snd (push (CStr ''b'') (run (boot (IntlChunkLoader [(''a'', [('''', ''a.json'')]), (''b'', [('''', ''b.json'')])]
                                  (Some [CStr ''a'']) None))
                      [SetLocale '''', XhrLoad 0 (Json [(''hello'', ''Hi'')]), LoadPendingThen 0,
                       SetLocaleThen 0])))) = 1
   \<and> fst (load (CStr ''b'') [] (run (boot (IntlChunkLoader [(''a'', [('''', ''a.json'')]), (''b'', [('''', ''b.json'')])]
                                  (Some [CStr ''a'']) None))
                      [SetLocale '''', XhrLoad 0 (Json [(''hello'', ''Hi'')]), LoadPendingThen 0,
                       SetLocaleThen 0])) = Xhr 1"
  (is "?H1 \<and> ?H2 \<and> ?C1 \<and> ?E1 \<and> ?C2 \<and> ?C3 \<and> ?C4 \<and> ?E2")
proof -
  let ?s = "IntlChunkLoader [(''a'', [('''', ''a.json'')]), (''b'', [('''', ''b.json'')])] (Some [CStr ''a'']) None"
  let ?w = "run (boot ?s) [SetLocale '''', XhrLoad 0 (Json [(''hello'', ''Hi'')]), LoadPendingThen 0]"
  let ?w' = "run (boot ?s) [SetLocale '''', XhrLoad 0 (Json [(''hello'', ''Hi'')]), LoadPendingThen 0,
                       SetLocaleThen 0]"
  have w': "?w' = step (SetLocaleThen 0) ?w" by (simp add: run_def)
  have h: "0 < length (calls ?w) \<and> c_result (calls ?w ! 0) = Fulfilled
           \<and> c_setLocale (calls ?w ! 0) = Some Pending \<and> c_locale (calls ?w ! 0) = []"
    by code_simp
  have c1: ?C1
    unfolding w' using empty_locale_inactive [of 0 ?w] h by blast
  have p: "messages (inst ?w') = None
           \<and> push (CStr ''b'') ?w'
               = (Resolved, ?w'\<lparr>inst := (inst ?w')\<lparr>chunkIdsToLoad :=
                                set_add (chunkIdsToLoad (inst ?w')) (CStr ''b'')\<rparr>\<rparr>)"
    using empty_locale_inactive [of 0 ?w' "CStr ''b''"] c1 by blast
  have len: "length (xhrs ?w') = 1" by code_simp
  from p have c2: ?C2 by blast
  from p have c3: ?C3 by (simp only: fst_conv)
  from p len have c4: ?C4 by (simp only: snd_conv xhrs_inst_update)
  note c234 = c2 c3 c4
  have e: "?E1 \<and> ?E2" by code_simp
  from h c1 c234 e show ?thesis by blast
qed

section \<open>Invariants of the event loop\<close>

lemma take_append_fixed: "take n ids = xs \<Longrightarrow> length xs = n \<Longrightarrow> take n (ids @ ys) = xs"
  by auto

lemma covers_append: "covers ids c \<Longrightarrow> covers (ids @ ys) c"
  unfolding covers_def by (metis take_append_fixed)

lemma covers_set_add: "covers ids c \<Longrightarrow> covers (set_add ids x) c"
  by (simp add: set_add_def covers_append)

lemma chunkIdsToLoad_step:
  "chunkIdsToLoad (inst (step ev w)) =
     (case ev of Push c \<Rightarrow> set_add (chunkIdsToLoad (inst w)) c | _ \<Rightarrow> chunkIdsToLoad (inst w))"
  by (cases ev) (simp_all add: push_inst xhr_onload_inst setLocale_then_inst split: responseText.splits)

lemma covers_step: "covers (chunkIdsToLoad (inst w)) c \<Longrightarrow> covers (chunkIdsToLoad (inst (step ev w))) c"
  by (cases ev)
     (simp_all add: push_inst xhr_onload_inst setLocale_then_inst covers_set_add
               split: responseText.splits)


lemma reject_call_shape [simp]:
  "c_size (reject_call n e c) = c_size c"
  "c_chunkIds (reject_call n e c) = c_chunkIds c"
  "c_locale (reject_call n e c) = c_locale c"
  "c_loads (reject_call n e c) = c_loads c"
  by (simp_all add: reject_call_def)

lemma covers_reject [simp]: "covers ids (reject_call n e c) = covers ids c"
  by (simp add: covers_def)

lemma fan_out_call:
  "fst (fan_out l ch w) =
     \<lparr>c_locale = l, c_size = length (chunkIdsToLoad (inst w)), c_chunkIds = chunkIdsToLoad (inst w),
      c_loads = fst (load_all (chunkIdsToLoad (inst w)) l w), c_result = Pending, c_setLocale = ch\<rparr>"
  by (simp add: fan_out_def Let_def split_beta)

lemma fan_out_world: "snd (fan_out l ch w) = snd (load_all (chunkIdsToLoad (inst w)) l w)"
  by (simp add: fan_out_def Let_def split_beta)


lemma calls_settle:
  "calls (settle n st w) = (case st of Rejected e \<Rightarrow> map (reject_call n e) (calls w) | _ \<Rightarrow> calls w)"
  by (simp add: settle_def)









lemma push_calls [simp]: "calls (snd (push c w)) = calls w"
  by (simp add: push_def Let_def split: option.splits)




section \<open>\<^verbatim>\<open>setLocale\<close>\<close>

subsection \<open>How one event changes the invocation records\<close>

lemma calls_loadPending: "calls (loadPending l w) = calls w @ [fst (fan_out l None w)]"
  by (simp add: loadPending_def split_beta)















lemma run_append: "run w (evs @ evs') = run (run w evs) evs'"
  by (simp add: run_def)





lemma call_ok_Fulfilled: "call_ok c \<Longrightarrow> c_setLocale c = Some Fulfilled \<Longrightarrow> c_result c = Fulfilled"
  by (auto simp: call_ok_def)



section \<open>\<^verbatim>\<open>loadPending\<close>\<close>

lemma load_xhrs: "\<exists>new. xhrs (snd (load c l w)) = xhrs w @ new"
  by (simp add: load_def Let_def split: option.splits)

lemma load_all_xhrs: "\<exists>new. xhrs (snd (load_all cs l w)) = xhrs w @ new"
proof (induction cs arbitrary: w)
  case Nil
  then show ?case by simp
next
  case (Cons c cs)
  obtain n1 where 1: "xhrs (snd (load c l w)) = xhrs w @ n1"
    using load_xhrs by blast
  obtain n2 where 2: "xhrs (snd (load_all cs l (snd (load c l w)))) = xhrs (snd (load c l w)) @ n2"
    using Cons.IH by blast
  from 1 2 show ?case by (simp add: split_beta)
qed

lemma load_issued: "issued w (snd (load c l w)) l c (fst (load c l w))"
  by (auto simp: issued_def load_def Let_def truthy_def split: option.splits)

lemma issued_extend:
  "issued w w1 l c p \<Longrightarrow> xhrs w' = xhrs w1 @ new \<Longrightarrow> issued w w' l c p"
  by (auto simp: issued_def nth_append split: promise.splits if_splits)

lemma issued_earlier:
  "issued w1 w' l c p \<Longrightarrow> inst w1 = inst w \<Longrightarrow> xhrs w1 = xhrs w @ new \<Longrightarrow> issued w w' l c p"
  by (auto simp: issued_def split: promise.splits if_splits)

lemma load_all_issued:
  "list_all2 (issued w (snd (load_all cs l w)) l) cs (fst (load_all cs l w))"
proof (induction cs arbitrary: w)
  case Nil
  then show ?case by simp
next
  case (Cons c cs)
  let ?w1 = "snd (load c l w)"
  let ?w2 = "snd (load_all cs l ?w1)"
  obtain n1 where 1: "xhrs ?w1 = xhrs w @ n1" using load_xhrs by blast
  obtain n2 where 2: "xhrs ?w2 = xhrs ?w1 @ n2" using load_all_xhrs by blast
  have hd: "issued w ?w2 l c (fst (load c l w))"
    using load_issued 2 by (rule issued_extend)
  have "list_all2 (issued ?w1 ?w2 l) cs (fst (load_all cs l ?w1))" by (rule Cons.IH)
  then have tl: "list_all2 (issued w ?w2 l) cs (fst (load_all cs l ?w1))"
    by (rule list_all2_mono) (rule issued_earlier [OF _ load_inst 1])
  from hd tl show ?case by (simp add: split_beta)
qed

lemma fan_out_issued:
  "list_all2 (issued w (snd (fan_out l ch w)) l) (chunkIdsToLoad (inst w)) (c_loads (fst (fan_out l ch w)))"
  by (simp add: fan_out_call fan_out_world load_all_issued)

lemma loadPending_world: "loadPending l w = (snd (fan_out l None w))\<lparr>calls := calls w @ [fst (fan_out l None w)]\<rparr>"
  by (simp add: loadPending_def split_beta)

lemma issued_calls_update [simp]: "issued w (w'\<lparr>calls := cs\<rparr>) l = issued w w' l"
proof (intro ext)
  fix c p
  show "issued w (w'\<lparr>calls := cs\<rparr>) l c p = issued w w' l c p"
    by (cases p) (simp_all add: issued_def)
qed










section \<open>Responses that are not JSON\<close>

lemma list_all2_in_set:
  "list_all2 Q xs ys \<Longrightarrow> x \<in> set xs \<Longrightarrow> \<exists>y. Q x y"
  by (auto simp: list_all2_conv_all_nth in_set_conv_nth)

lemma loadPending_reissues:
  assumes "c \<in> set (chunkIdsToLoad (inst w))"
    and "truthy (manifest_src (inst w) c l)" and "\<not> is_loaded (inst w) c l"
  shows "\<exists>k. length (xhrs w) \<le> k \<and> k < length (xhrs (step (LoadPending l) w))
           \<and> x_chunkId (xhrs (step (LoadPending l) w) ! k) = c
           \<and> x_locale (xhrs (step (LoadPending l) w) ! k) = l
           \<and> Some (x_src (xhrs (step (LoadPending l) w) ! k)) = manifest_src (inst w) c l
           \<and> x_promise (xhrs (step (LoadPending l) w) ! k) = Pending"
proof -
  let ?w' = "step (LoadPending l) w"
  have "list_all2 (issued w ?w' l) (chunkIdsToLoad (inst w)) (c_loads (fst (fan_out l None w)))"
    using fan_out_issued [of w l None] by (simp add: loadPending_world)
  from list_all2_in_set [OF this assms(1)] obtain p where "issued w ?w' l c p" ..
  then show ?thesis
    using assms(2,3) by (cases p) (auto simp: issued_def)
qed

lemma xhrs_settle:
  "xhrs (settle n st w) = (xhrs w)[n := (xhrs w ! n)\<lparr>x_promise := st\<rparr>]"
  by (simp add: settle_def)

lemma load_new:
  assumes "length (xhrs w) \<le> k" and "k < length (xhrs (snd (load c l w)))"
  shows "sent_for w l [c] [fst (load c l w)] (xhrs (snd (load c l w)) ! k) k"
  using assms
  by (auto simp: load_def Let_def sent_for_def nth_append split: option.splits if_splits)

lemma sent_for_mono:
  "sent_for w l cs ps x k \<Longrightarrow> set cs \<subseteq> set cs' \<Longrightarrow> set ps \<subseteq> set ps' \<Longrightarrow> inst w' = inst w \<Longrightarrow>
   sent_for w' l cs' ps' x k"
  by (auto simp: sent_for_def)

lemma load_all_new:
  "length (xhrs w) \<le> k \<Longrightarrow> k < length (xhrs (snd (load_all cs l w))) \<Longrightarrow>
   sent_for w l cs (fst (load_all cs l w)) (xhrs (snd (load_all cs l w)) ! k) k"
proof (induction cs arbitrary: w)
  case Nil
  then show ?case by simp
next
  case (Cons c cs)
  let ?w1 = "snd (load c l w)"
  let ?w2 = "snd (load_all cs l ?w1)"
  obtain n2 where 2: "xhrs ?w2 = xhrs ?w1 @ n2" using load_all_xhrs by blast
  have k2: "k < length (xhrs ?w2)" using Cons.prems(2) by (simp add: split_beta)
  show ?case
  proof (cases "k < length (xhrs ?w1)")
    case True
    with Cons.prems(1) have "sent_for w l [c] [fst (load c l w)] (xhrs ?w1 ! k) k"
      by (intro load_new)
    moreover have "xhrs ?w2 ! k = xhrs ?w1 ! k" using True 2 by (simp add: nth_append)
    ultimately have "sent_for w l [c] [fst (load c l w)] (xhrs ?w2 ! k) k" by simp
    then have "sent_for w l (c # cs) (fst (load c l w) # fst (load_all cs l ?w1)) (xhrs ?w2 ! k) k"
      by (rule sent_for_mono) simp_all
    then show ?thesis by (simp add: split_beta)
  next
    case False
    then have "length (xhrs ?w1) \<le> k" by simp
    then have "sent_for ?w1 l cs (fst (load_all cs l ?w1)) (xhrs ?w2 ! k) k"
      using k2 by (rule Cons.IH)
    then have "sent_for w l (c # cs) (fst (load c l w) # fst (load_all cs l ?w1)) (xhrs ?w2 ! k) k"
      by (rule sent_for_mono) auto
    then show ?thesis by (simp add: split_beta)
  qed
qed

lemma loadPending_new:
  assumes "length (xhrs w) \<le> k" and "k < length (xhrs (step (LoadPending l) w))"
  shows "sent_for w l (chunkIdsToLoad (inst w))
           (c_loads (calls (step (LoadPending l) w) ! length (calls w)))
           (xhrs (step (LoadPending l) w) ! k) k"
  using assms load_all_new [of w k "chunkIdsToLoad (inst w)" l]
  by (simp add: loadPending_world fan_out_world fan_out_call)

text \<open>
  Claim C2. When the response of a request in flight is not valid JSON, the promise of
  that \<^verbatim>\<open>load\<close> is rejected with the parse error, the loader instance (its cache and
  its loaded-chunk record included) is left as it was, and every pending
  \<^verbatim>\<open>loadPending\<close> waiting for the request is rejected with the parse error; and where
  the chunk of the request is registered, still has its resource and is still not
  recorded loaded, the next \<^verbatim>\<open>loadPending\<close> for the locale sends a new request for it.
  In particular, for every request \<open>k\<close> that a call of \<^verbatim>\<open>loadPending(l)\<close> sends: if its
  response is not valid JSON, that invocation is rejected with the parse error, the
  chunk of the request is still not recorded loaded for \<open>l\<close>, and the next call of
  \<^verbatim>\<open>loadPending(l)\<close> sends a new request for the same chunk, locale and resource.
\<close>

theorem invalid_json_rejects:
  "(in_flight w n \<longrightarrow>
      x_promise (xhrs (step (XhrLoad n NotJson) w) ! n) = Rejected ParsePayload
      \<and> inst (step (XhrLoad n NotJson) w) = inst w
      \<and> (i < length (calls w) \<and> c_result (calls w ! i) = Pending
           \<and> Xhr n \<in> set (c_loads (calls w ! i))
         \<longrightarrow> c_result (calls (step (XhrLoad n NotJson) w) ! i) = Rejected ParsePayload)
      \<and> (x_chunkId (xhrs w ! n) \<in> set (chunkIdsToLoad (inst w))
           \<and> truthy (manifest_src (inst w) (x_chunkId (xhrs w ! n)) (x_locale (xhrs w ! n)))
           \<and> \<not> is_loaded (inst w) (x_chunkId (xhrs w ! n)) (x_locale (xhrs w ! n))
         \<longrightarrow> (\<exists>k'. length (xhrs (step (XhrLoad n NotJson) w)) \<le> k'
            \<and> k' < length (xhrs (step (LoadPending (x_locale (xhrs w ! n))) (step (XhrLoad n NotJson) w)))
            \<and> x_chunkId (xhrs (step (LoadPending (x_locale (xhrs w ! n))) (step (XhrLoad n NotJson) w)) ! k')
                = x_chunkId (xhrs w ! n)
            \<and> x_locale (xhrs (step (LoadPending (x_locale (xhrs w ! n))) (step (XhrLoad n NotJson) w)) ! k')
                = x_locale (xhrs w ! n)
            \<and> Some (x_src (xhrs (step (LoadPending (x_locale (xhrs w ! n))) (step (XhrLoad n NotJson) w)) ! k'))
                = manifest_src (inst w) (x_chunkId (xhrs w ! n)) (x_locale (xhrs w ! n))
            \<and> x_promise (xhrs (step (LoadPending (x_locale (xhrs w ! n))) (step (XhrLoad n NotJson) w)) ! k')
                = Pending)))
   \<and> (length (xhrs w) \<le> k \<and> k < length (xhrs (step (LoadPending l) w)) \<longrightarrow>
      in_flight (step (LoadPending l) w) k
      \<and> x_locale (xhrs (step (LoadPending l) w) ! k) = l
      \<and> x_chunkId (xhrs (step (LoadPending l) w) ! k) \<in> set (chunkIdsToLoad (inst w))
      \<and> c_result (calls (step (XhrLoad k NotJson) (step (LoadPending l) w)) ! length (calls w))
          = Rejected ParsePayload
      \<and> inst (step (XhrLoad k NotJson) (step (LoadPending l) w)) = inst w
      \<and> \<not> is_loaded (inst (step (XhrLoad k NotJson) (step (LoadPending l) w)))
            (x_chunkId (xhrs (step (LoadPending l) w) ! k)) l
      \<and> (\<exists>k'. length (xhrs (step (XhrLoad k NotJson) (step (LoadPending l) w))) \<le> k'
            \<and> k' < length (xhrs (step (LoadPending l) (step (XhrLoad k NotJson) (step (LoadPending l) w))))
            \<and> x_chunkId (xhrs (step (LoadPending l) (step (XhrLoad k NotJson) (step (LoadPending l) w))) ! k')
                = x_chunkId (xhrs (step (LoadPending l) w) ! k)
            \<and> x_locale (xhrs (step (LoadPending l) (step (XhrLoad k NotJson) (step (LoadPending l) w))) ! k') = l
            \<and> x_src (xhrs (step (LoadPending l) (step (XhrLoad k NotJson) (step (LoadPending l) w))) ! k')
                = x_src (xhrs (step (LoadPending l) w) ! k)
            \<and> x_promise (xhrs (step (LoadPending l) (step (XhrLoad k NotJson) (step (LoadPending l) w))) ! k')
                = Pending))"
proof (intro conjI impI)
  assume fl: "in_flight w n"
  let ?w' = "step (XhrLoad n NotJson) w"
  have w': "xhr_onload n NotJson w = settle n (Rejected ParsePayload) w"
    using fl by (simp add: xhr_onload_def)
  show "x_promise (xhrs ?w' ! n) = Rejected ParsePayload"
    using fl by (simp add: w' xhrs_settle in_flight_def)
  show i': "inst ?w' = inst w" by (simp add: w')
  {
    assume "i < length (calls w) \<and> c_result (calls w ! i) = Pending \<and> Xhr n \<in> set (c_loads (calls w ! i))"
    then show "c_result (calls ?w' ! i) = Rejected ParsePayload"
      by (simp add: w' calls_settle reject_call_def)
  }
  let ?c = "x_chunkId (xhrs w ! n)"
  let ?l = "x_locale (xhrs w ! n)"
  assume again: "?c \<in> set (chunkIdsToLoad (inst w)) \<and> truthy (manifest_src (inst w) ?c ?l)
           \<and> \<not> is_loaded (inst w) ?c ?l"
  then have "?c \<in> set (chunkIdsToLoad (inst ?w'))" "truthy (manifest_src (inst ?w') ?c ?l)"
       "\<not> is_loaded (inst ?w') ?c ?l"
    by (simp_all only: i' not_False_eq_True)
  then have "\<exists>k'. length (xhrs ?w') \<le> k' \<and> k' < length (xhrs (step (LoadPending ?l) ?w'))
           \<and> x_chunkId (xhrs (step (LoadPending ?l) ?w') ! k') = ?c
           \<and> x_locale (xhrs (step (LoadPending ?l) ?w') ! k') = ?l
           \<and> Some (x_src (xhrs (step (LoadPending ?l) ?w') ! k')) = manifest_src (inst ?w') ?c ?l
           \<and> x_promise (xhrs (step (LoadPending ?l) ?w') ! k') = Pending"
    by (rule loadPending_reissues)
  then show "\<exists>k'. length (xhrs ?w') \<le> k' \<and> k' < length (xhrs (step (LoadPending ?l) ?w'))
           \<and> x_chunkId (xhrs (step (LoadPending ?l) ?w') ! k') = ?c
           \<and> x_locale (xhrs (step (LoadPending ?l) ?w') ! k') = ?l
           \<and> Some (x_src (xhrs (step (LoadPending ?l) ?w') ! k')) = manifest_src (inst w) ?c ?l
           \<and> x_promise (xhrs (step (LoadPending ?l) ?w') ! k') = Pending"
    by (simp only: i')
next
  assume new: "length (xhrs w) \<le> k \<and> k < length (xhrs (step (LoadPending l) w))"
  let ?w1 = "step (LoadPending l) w"
  let ?w2 = "step (XhrLoad k NotJson) ?w1"
  let ?c = "x_chunkId (xhrs ?w1 ! k)"
  have sf: "sent_for w l (chunkIdsToLoad (inst w)) (c_loads (calls ?w1 ! length (calls w)))
              (xhrs ?w1 ! k) k"
    using new by (intro loadPending_new) simp_all
  show fl: "in_flight ?w1 k" using new sf by (simp add: in_flight_def sent_for_def)
  show "x_locale (xhrs ?w1 ! k) = l" using sf unfolding sent_for_def by blast
  show reg: "?c \<in> set (chunkIdsToLoad (inst w))" using sf unfolding sent_for_def by blast
  have w2: "xhr_onload k NotJson (loadPending l w) = settle k (Rejected ParsePayload) (loadPending l w)"
    using fl by (simp add: xhr_onload_def)
  have pend: "length (calls w) < length (calls ?w1)"
       "c_result (calls ?w1 ! length (calls w)) = Pending"
    by (simp_all add: calls_loadPending fan_out_call)
  have aw: "Xhr k \<in> set (c_loads (calls ?w1 ! length (calls w)))"
    using sf unfolding sent_for_def by blast
  show "c_result (calls ?w2 ! length (calls w)) = Rejected ParsePayload"
    using pend aw by (simp add: w2 calls_settle reject_call_def)
  show i2: "inst ?w2 = inst w" by (simp add: w2)
  have nl: "\<not> is_loaded (inst w) ?c l" using sf unfolding sent_for_def by blast
  then show "\<not> is_loaded (inst ?w2) ?c l" by (simp only: i2 not_False_eq_True)
  have tr: "truthy (manifest_src (inst w) ?c l)" using sf unfolding sent_for_def by blast
  have src: "manifest_src (inst w) ?c l = Some (x_src (xhrs ?w1 ! k))"
    using sf unfolding sent_for_def by blast
  have "?c \<in> set (chunkIdsToLoad (inst ?w2))" "truthy (manifest_src (inst ?w2) ?c l)"
       "\<not> is_loaded (inst ?w2) ?c l"
    using reg tr nl by (simp_all only: i2 not_False_eq_True)
  then obtain k' where k': "length (xhrs ?w2) \<le> k'" "k' < length (xhrs (step (LoadPending l) ?w2))"
           "x_chunkId (xhrs (step (LoadPending l) ?w2) ! k') = ?c"
           "x_locale (xhrs (step (LoadPending l) ?w2) ! k') = l"
           "Some (x_src (xhrs (step (LoadPending l) ?w2) ! k')) = manifest_src (inst ?w2) ?c l"
           "x_promise (xhrs (step (LoadPending l) ?w2) ! k') = Pending"
    using loadPending_reissues [of ?c ?w2 l] by blast
  from k'(5) have "x_src (xhrs (step (LoadPending l) ?w2) ! k') = x_src (xhrs ?w1 ! k)"
    by (simp only: i2 src option.inject)
  with k'(1-4,6)
  show "\<exists>k'. length (xhrs ?w2) \<le> k'
            \<and> k' < length (xhrs (step (LoadPending l) ?w2))
            \<and> x_chunkId (xhrs (step (LoadPending l) ?w2) ! k') = ?c
            \<and> x_locale (xhrs (step (LoadPending l) ?w2) ! k') = l
            \<and> x_src (xhrs (step (LoadPending l) ?w2) ! k') = x_src (xhrs ?w1 ! k)
            \<and> x_promise (xhrs (step (LoadPending l) ?w2) ! k') = Pending"
    by blast
qed

theorem invalid_json_rejects_witness:
  "length (xhrs (boot (IntlChunkLoader [(''a'', [(''en'', ''a.en.json'')])] (Some [CStr ''a'']) None))) \<le> 0
   \<and> 0 < length (xhrs (step (LoadPending ''en'')
           (boot (IntlChunkLoader [(''a'', [(''en'', ''a.en.json'')])] (Some [CStr ''a'']) None))))
   \<and> in_flight (step (LoadPending ''en'')
           (boot (IntlChunkLoader [(''a'', [(''en'', ''a.en.json'')])] (Some [CStr ''a'']) None))) 0
   \<and> x_promise (xhrs (step (XhrLoad 0 NotJson) (step (LoadPending ''en'')
           (boot (IntlChunkLoader [(''a'', [(''en'', ''a.en.json'')])] (Some [CStr ''a'']) None)))) ! 0)
       = Rejected ParsePayload
   \<and> c_result (calls (step (XhrLoad 0 NotJson) (step (LoadPending ''en'')
           (boot (IntlChunkLoader [(''a'', [(''en'', ''a.en.json'')])] (Some [CStr ''a'']) None)))) ! 0)
       = Rejected ParsePayload
   \<and> \<not> is_loaded (inst (step (XhrLoad 0 NotJson) (step (LoadPending ''en'')
           (boot (IntlChunkLoader [(''a'', [(''en'', ''a.en.json'')])] (Some [CStr ''a'']) None)))))
         (CStr ''a'') ''en''
   \<and> cache (inst (step (XhrLoad 0 NotJson) (step (LoadPending ''en'')
           (boot (IntlChunkLoader [(''a'', [(''en'', ''a.en.json'')])] (Some [CStr ''a'']) None))))) = []
   \<and> xhrs (step (LoadPending ''en'') (step (XhrLoad 0 NotJson) (step (LoadPending ''en'')
           (boot (IntlChunkLoader [(''a'', [(''en'', ''a.en.json'')])] (Some [CStr ''a'']) None))))) ! 1
       = \<lparr>x_src = ''a.en.json'', x_chunkId = CStr ''a'', x_locale = ''en'', x_promise = Pending\<rparr>"
  (is "?H1 \<and> ?H2 \<and> ?H3 \<and> ?C1 \<and> ?C2 \<and> ?C3 \<and> ?E1 \<and> ?E2")
proof -
  let ?w = "boot (IntlChunkLoader [(''a'', [(''en'', ''a.en.json'')])] (Some [CStr ''a'']) None)"
  let ?w1 = "step (LoadPending ''en'') ?w"
  let ?w2 = "step (XhrLoad 0 NotJson) ?w1"
  have h1: ?H1 by code_simp
  have h2: ?H2 by code_simp
  have h3: ?H3 by code_simp
  have nc: "length (calls ?w) = 0" by code_simp
  have ch: "x_chunkId (xhrs ?w1 ! 0) = CStr ''a''" by code_simp
  have cw: "cache (inst ?w) = []" by code_simp
  note A = invalid_json_rejects [of ?w1 0 0, THEN conjunct1, rule_format, OF h3]
  note B = invalid_json_rejects [of ?w _ _ 0 "''en''", THEN conjunct2, rule_format, OF conjI [OF h1 h2]]
  from A have c1: ?C1 by blast
  from B have "c_result (calls ?w2 ! length (calls ?w)) = Rejected ParsePayload" by blast
  then have c2: ?C2 by (simp only: nc)
  from B have "\<not> is_loaded (inst ?w2) (x_chunkId (xhrs ?w1 ! 0)) ''en''" by blast
  then have c3: ?C3 by (simp only: ch not_False_eq_True)
  from B have "inst ?w2 = inst ?w" by blast
  with cw have e1: ?E1 by (simp only:)
  have e2: ?E2 by code_simp
  from h1 h2 h3 c1 c2 c3 e1 e2 show ?thesis by blast
qed

section \<open>Payloads are merged before chunks are recorded loaded\<close>

lemma keys_present_iff:
  "list_all (\<lambda>k. obj_get b k \<noteq> None) ks \<longleftrightarrow> set ks \<subseteq> set (obj_keys b)"
  by (induction ks) (simp_all add: obj_get_None_iff del: not_None_eq)

lemma covered_iff:
  "covered p c l \<longleftrightarrow> (\<exists>b. obj_get c l = Some b \<and> set (obj_keys p) \<subseteq> set (obj_keys b))"
  by (cases "obj_get c l") (simp_all add: covered_def keys_present_iff del: not_None_eq)

lemma covered_mono: "covered p c l \<Longrightarrow> cache_le c c' \<Longrightarrow> covered p c' l"
  unfolding covered_iff cache_le_def by (meson subset_trans)

lemma cache_le_refl [simp]: "cache_le c c"
  by (simp add: cache_le_def)

lemma cache_le_trans: "cache_le a b \<Longrightarrow> cache_le b c \<Longrightarrow> cache_le a c"
  unfolding cache_le_def by (meson subset_trans)

lemma cache_le_merged: "cache_le c (merged msgs c l)"
  using obj_keys_assign_mono
  by (auto simp: cache_le_def merged_def obj_get_set)

lemma cache_le_foldl: "cache_le c (foldl (merged msgs) c ks)"
proof (induction ks arbitrary: c)
  case Nil
  then show ?case by simp
next
  case (Cons k ks)
  have "cache_le c (merged msgs c k)" by (rule cache_le_merged)
  moreover have "cache_le (merged msgs c k) (foldl (merged msgs) (merged msgs c k) ks)"
    by (rule Cons.IH)
  ultimately show ?case by (auto intro: cache_le_trans)
qed

lemma cache_le_updateCache: "cache_le (cache s) (cache (updateCache msgs s))"
  by (simp add: updateCache_eq cache_le_foldl)







lemma payload_merged_setChunkIdAsLoaded [simp]:
  "payload_merged P (setChunkIdAsLoaded c l s) = payload_merged P s"
  by (simp add: payload_merged_def fun_eq_iff split: option.splits)


lemma cache_merged_at:
  "obj_get (merged msgs c l) l =
     Some (obj_assign (case obj_get c l of None \<Rightarrow> [] | Some b \<Rightarrow> b)
                      (case obj_get msgs l of None \<Rightarrow> [] | Some m \<Rightarrow> m))"
  by (simp add: merged_def obj_get_set)

lemma covered_updateCache:
  assumes "obj_get msgs l = Some p"
  shows "covered p (cache (updateCache msgs s)) l"
proof -
  let ?G = "foldl (merged msgs) (cache s) (obj_keys msgs)"
  from assms have "l \<in> set (obj_keys msgs)"
    using obj_get_None_iff [of msgs l] by auto
  then have "merged msgs ?G l = ?G" by (rule merged_fold_stable)
  then have "obj_get ?G l = obj_get (merged msgs ?G l) l" by simp
  also have "\<dots> = Some (obj_assign (case obj_get ?G l of None \<Rightarrow> [] | Some b \<Rightarrow> b) p)"
    using assms by (simp add: cache_merged_at)
  finally show ?thesis
    using obj_keys_assign_src by (auto simp: covered_iff updateCache_eq)
qed


lemma payload_merged_fields [simp]:
  "payload_merged P (s\<lparr>chunkIdsToLoad := x\<rparr>) = payload_merged P s"
  "payload_merged P (s\<lparr>locale := y\<rparr>) = payload_merged P s"
  by (simp_all add: payload_merged_def fun_eq_iff split: option.splits)

lemma merged_before_loaded_fields [simp]:
  "merged_before_loaded P (s\<lparr>chunkIdsToLoad := x\<rparr>) = merged_before_loaded P s"
  "merged_before_loaded P (s\<lparr>locale := y\<rparr>) = merged_before_loaded P s"
  by (simp_all add: merged_before_loaded_def)










section \<open>Hydration from cached messages\<close>

lemma is_loaded_marks:
  "is_loaded (foldl (\<lambda>s' l. setChunkIdAsLoaded c l s') s ls) c' l'
     \<longleftrightarrow> (c' = c \<and> l' \<in> set ls) \<or> is_loaded s c' l'"
  by (induction ls arbitrary: s) (auto simp: is_loaded_setChunkIdAsLoaded)

lemma cache_marks [simp]: "cache (foldl (\<lambda>s' l. setChunkIdAsLoaded c l s') s ls) = cache s"
  by (induction ls arbitrary: s) simp_all

lemma is_loaded_hydrate:
  "is_loaded (hydrate_chunk cached s name) c l
     \<longleftrightarrow> (c = CStr name
          \<and> l \<in> set (obj_keys (case obj_get cached name of None \<Rightarrow> [] | Some m \<Rightarrow> m)))
         \<or> is_loaded s c l"
  by (simp add: hydrate_chunk_def Let_def is_loaded_marks)

lemma cache_le_hydrate: "cache_le (cache s) (cache (hydrate_chunk cached s name))"
  by (simp add: hydrate_chunk_def Let_def cache_le_updateCache)

lemma cache_le_hydrate_all: "cache_le (cache s) (cache (foldl (hydrate_chunk cached) s names))"
proof (induction names arbitrary: s)
  case Nil
  then show ?case by simp
next
  case (Cons name names)
  have "cache_le (cache s) (cache (hydrate_chunk cached s name))" by (rule cache_le_hydrate)
  moreover have "cache_le (cache (hydrate_chunk cached s name))
                   (cache (foldl (hydrate_chunk cached) (hydrate_chunk cached s name) names))"
    by (rule Cons.IH)
  ultimately show ?case by (auto intro: cache_le_trans)
qed

lemma is_loaded_hydrate_keeps:
  "is_loaded s c l \<Longrightarrow> is_loaded (foldl (hydrate_chunk cached) s names) c l"
  by (induction names arbitrary: s) (simp_all add: is_loaded_hydrate)

lemma is_loaded_hydrate_all:
  "name \<in> set names \<Longrightarrow>
   l \<in> set (obj_keys (case obj_get cached name of None \<Rightarrow> [] | Some m \<Rightarrow> m)) \<Longrightarrow>
   is_loaded (foldl (hydrate_chunk cached) s names) (CStr name) l"
proof (induction names arbitrary: s)
  case Nil
  then show ?case by simp
next
  case (Cons n names)
  show ?case
  proof (cases "name \<in> set names")
    case True
    then show ?thesis using Cons.IH Cons.prems(2) by simp
  next
    case False
    with Cons.prems have "is_loaded (hydrate_chunk cached s n) (CStr name) l"
      by (simp add: is_loaded_hydrate)
    then show ?thesis by (simp add: is_loaded_hydrate_keeps)
  qed
qed

lemma covered_hydrate_all:
  "name \<in> set names \<Longrightarrow>
   obj_get (case obj_get cached name of None \<Rightarrow> [] | Some m \<Rightarrow> m) l = Some p \<Longrightarrow>
   covered p (cache (foldl (hydrate_chunk cached) s names)) l"
proof (induction names arbitrary: s)
  case Nil
  then show ?case by simp
next
  case (Cons n names)
  show ?case
  proof (cases "name \<in> set names")
    case True
    then show ?thesis using Cons.IH Cons.prems(2) by simp
  next
    case False
    with Cons.prems(1) have n: "n = name" by simp
    have "covered p (cache (hydrate_chunk cached s name)) l"
      using Cons.prems(2) by (simp add: hydrate_chunk_def Let_def covered_updateCache)
    then show ?thesis
      using cache_le_hydrate_all [of "hydrate_chunk cached s name" cached names] n
      by (auto intro: covered_mono)
  qed
qed

lemma hydrated_pairs:
  assumes "obj_get cached name = Some msgs" and "obj_get msgs l = Some p"
  shows "is_loaded (IntlChunkLoader m ids (Some cached)) (CStr name) l
         \<and> covered p (cache (IntlChunkLoader m ids (Some cached))) l"
proof -
  have name: "name \<in> set (obj_keys cached)"
    using assms(1) obj_get_None_iff [of cached name] by auto
  have l: "l \<in> set (obj_keys (case obj_get cached name of None \<Rightarrow> [] | Some m \<Rightarrow> m))"
    using assms obj_get_None_iff [of msgs l] by auto
  have p: "obj_get (case obj_get cached name of None \<Rightarrow> [] | Some m \<Rightarrow> m) l = Some p"
    using assms by simp
  show ?thesis
    unfolding IntlChunkLoader_def Let_def
    using is_loaded_hydrate_all [OF name l] covered_hydrate_all [OF name p] by simp
qed

lemma hydrated_loader:
  "IntlChunkLoader m (Some [CStr ''main'']) (Some [(''main'', [(''en'', [(''greeting'', ''hi'')])])])
     = \<lparr>chunkIdsToLoad = [CStr ''main''], manifest = m, cache = [(''en'', [(''greeting'', ''hi'')])],
        locale = None, loadedChunksPerLocale = [(''en'', [CStr ''main''])]\<rparr>"
  by code_simp

lemma hydrated_run:
  assumes "is_loaded s (CStr ''main'') ''en''" and "chunkIdsToLoad s = [CStr ''main'']"
  shows "run (boot s) [SetLocale ''en'', LoadPendingThen 0, SetLocaleThen 0]
           = \<lparr>inst = s\<lparr>locale := Some ''en''\<rparr>, xhrs = [],
              calls = [\<lparr>c_locale = ''en'', c_size = 1, c_chunkIds = [CStr ''main''],
                        c_loads = [Resolved], c_result = Fulfilled, c_setLocale = Some Fulfilled\<rparr>]\<rparr>"
proof -
  have l: "load (CStr ''main'') ''en'' (boot s) = (Resolved, boot s)"
    using assms(1) by (simp add: load_Resolved boot_def)
  have 1: "setLocale ''en'' (boot s)
             = \<lparr>inst = s, xhrs = [],
                calls = [\<lparr>c_locale = ''en'', c_size = 1, c_chunkIds = [CStr ''main''],
                          c_loads = [Resolved], c_result = Pending, c_setLocale = Some Pending\<rparr>]\<rparr>"
    using assms(2) l by (simp add: setLocale_def fan_out_def) (simp add: boot_def)
  show ?thesis
    using assms(2)
    by (simp add: 1 loadPending_then_def all_fulfilled_def fulfilled_def setLocale_then_def)
qed

text \<open>
  Claim C5. The constructor records every pair of a chunk-group name and a locale found
  in the cached messages as loaded, under the name as a string id, and the cache then
  holds the keys of the pair's messages. For every manifest, the loader constructed
  with the chunk ids \<^verbatim>\<open>['main']\<close> and the cached messages
  \<^verbatim>\<open>{main: {en: {greeting: "hi"}}}\<close> holds the greeting in its cache and records
  \<^verbatim>\<open>main\<close> as loaded for \<^verbatim>\<open>en\<close>; running \<^verbatim>\<open>setLocale('en')\<close> to completion on it
  sends no request, fulfils the promise and makes the getter \<^verbatim>\<open>messages\<close> return
  \<^verbatim>\<open>{greeting: "hi"}\<close>.
\<close>

theorem hydration_scenario:
  "(obj_get cached name = Some msgs \<and> obj_get msgs l = Some p \<longrightarrow>
      is_loaded (IntlChunkLoader m ids (Some cached)) (CStr name) l
      \<and> covered p (cache (IntlChunkLoader m ids (Some cached))) l)
   \<and> xhrs (run (boot (IntlChunkLoader m (Some [CStr ''main''])
                 (Some [(''main'', [(''en'', [(''greeting'', ''hi'')])])])))
            [SetLocale ''en'', LoadPendingThen 0, SetLocaleThen 0]) = []
   \<and> messages (inst (run (boot (IntlChunkLoader m (Some [CStr ''main''])
                 (Some [(''main'', [(''en'', [(''greeting'', ''hi'')])])])))
            [SetLocale ''en'', LoadPendingThen 0, SetLocaleThen 0])) = Some [(''greeting'', ''hi'')]
   \<and> c_setLocale (calls (run (boot (IntlChunkLoader m (Some [CStr ''main''])
                 (Some [(''main'', [(''en'', [(''greeting'', ''hi'')])])])))
            [SetLocale ''en'', LoadPendingThen 0, SetLocaleThen 0]) ! 0) = Some Fulfilled
   \<and> cache (IntlChunkLoader m (Some [CStr ''main''])
                 (Some [(''main'', [(''en'', [(''greeting'', ''hi'')])])]))
        = [(''en'', [(''greeting'', ''hi'')])]
   \<and> loadedChunksPerLocale (IntlChunkLoader m (Some [CStr ''main''])
                 (Some [(''main'', [(''en'', [(''greeting'', ''hi'')])])]))
        = [(''en'', [CStr ''main''])]"
proof -
  let ?s = "IntlChunkLoader m (Some [CStr ''main'']) (Some [(''main'', [(''en'', [(''greeting'', ''hi'')])])])"
  have a: "is_loaded ?s (CStr ''main'') ''en''"
    by (simp add: hydrated_loader is_loaded_def set_has_def)
  have b: "chunkIdsToLoad ?s = [CStr ''main'']"
    by (simp add: hydrated_loader)
  have g: "obj_get cached name = Some msgs \<and> obj_get msgs l = Some p \<longrightarrow>
      is_loaded (IntlChunkLoader m ids (Some cached)) (CStr name) l
      \<and> covered p (cache (IntlChunkLoader m ids (Some cached))) l"
    using hydrated_pairs [of cached name msgs l p m ids] by blast
  have sc: "xhrs (run (boot ?s) [SetLocale ''en'', LoadPendingThen 0, SetLocaleThen 0]) = []
   \<and> messages (inst (run (boot ?s) [SetLocale ''en'', LoadPendingThen 0, SetLocaleThen 0]))
       = Some [(''greeting'', ''hi'')]
   \<and> c_setLocale (calls (run (boot ?s) [SetLocale ''en'', LoadPendingThen 0, SetLocaleThen 0]) ! 0)
       = Some Fulfilled
   \<and> cache ?s = [(''en'', [(''greeting'', ''hi'')])]
   \<and> loadedChunksPerLocale ?s = [(''en'', [CStr ''main''])]"
    unfolding hydrated_run [OF a b]
    by (simp add: hydrated_loader messages_def truthy_def)
  from g sc show ?thesis by (rule conjI)
qed

theorem hydration_scenario_witness:
  "obj_get [(''main'', [(''en'', [(''greeting'', ''hi'')])])] ''main''
      = Some [(''en'', [(''greeting'', ''hi'')])]
   \<and> obj_get [(''en'', [(''greeting'', ''hi'')])] ''en'' = Some [(''greeting'', ''hi'')]
   \<and> is_loaded (IntlChunkLoader [(''main'', [(''en'', ''main.en.json'')])] (Some [CStr ''main''])
                  (Some [(''main'', [(''en'', [(''greeting'', ''hi'')])])])) (CStr ''main'') ''en''
   \<and> covered [(''greeting'', ''hi'')]
        (cache (IntlChunkLoader [(''main'', [(''en'', ''main.en.json'')])] (Some [CStr ''main''])
                  (Some [(''main'', [(''en'', [(''greeting'', ''hi'')])])]))) ''en''
   \<and> xhrs (run (boot (IntlChunkLoader [(''main'', [(''en'', ''main.en.json'')])] (Some [CStr ''main''])
                 (Some [(''main'', [(''en'', [(''greeting'', ''hi'')])])])))
            [SetLocale ''en'', LoadPendingThen 0, SetLocaleThen 0]) = []
   \<and> fst (load (CStr ''main'') ''en''
        (boot (IntlChunkLoader [(''main'', [(''en'', ''main.en.json'')])] (Some [CStr ''main'']) None)))
       = Xhr 0"
  (is "?H1 \<and> ?H2 \<and> ?C1 \<and> ?C2 \<and> ?C3 \<and> ?E")
proof -
  have h1: ?H1 by simp
  have h2: ?H2 by simp
  note T = hydration_scenario [of "[(''main'', [(''en'', [(''greeting'', ''hi'')])])]" "''main''"
      "[(''en'', [(''greeting'', ''hi'')])]" "''en''" "[(''greeting'', ''hi'')]"
      "[(''main'', [(''en'', ''main.en.json'')])]" "Some [CStr ''main'']"]
  from T h1 h2 have c12: "?C1 \<and> ?C2" by blast
  from T have c3: ?C3 by blast
  have e: ?E by code_simp
  from h1 h2 c12 c3 e show ?thesis by blast
qed

end
